theory Spec2Isabelle
  imports Complex_Main "HOL-Library.Word"
begin

unbundle bit_operations_syntax

section \<open>Byte buffers and the DataView reads\<close>

text \<open>
  An ArrayBuffer is a list of bytes. Every DataView getter checks that the bytes it needs
  lie inside the buffer and throws a RangeError otherwise; the model returns the error as
  a value. All multi-byte reads of the sources pass \<open>littleEndian = true\<close>.
\<close>

type_synonym byte = "8 word"
type_synonym buffer = "byte list"

datatype error =
    RangeError
  | InvalidLasSignature string
  | InvalidLazSignature
  | SyntaxError string

definition bind :: "error + 'a \<Rightarrow> ('a \<Rightarrow> error + 'b) \<Rightarrow> error + 'b" where
  "bind m f = (case m of Inl e \<Rightarrow> Inl e | Inr v \<Rightarrow> f v)"

definition getUint8 :: "buffer \<Rightarrow> nat \<Rightarrow> error + nat" where
  "getUint8 buf off =
     (if off + 1 \<le> length buf then Inr (unat (buf ! off)) else Inl RangeError)"

definition getUint16 :: "buffer \<Rightarrow> nat \<Rightarrow> error + nat" where
  "getUint16 buf off =
     (if off + 2 \<le> length buf
      then Inr (unat (buf ! off) + 256 * unat (buf ! (off + 1)))
      else Inl RangeError)"

definition getUint32 :: "buffer \<Rightarrow> nat \<Rightarrow> error + nat" where
  "getUint32 buf off =
     (if off + 4 \<le> length buf
      then Inr (unat (buf ! off) + 256 * unat (buf ! (off + 1))
                + 65536 * unat (buf ! (off + 2)) + 16777216 * unat (buf ! (off + 3)))
      else Inl RangeError)"

definition getInt32 :: "buffer \<Rightarrow> nat \<Rightarrow> error + int" where
  "getInt32 buf off =
     (case getUint32 buf off of
        Inl e \<Rightarrow> Inl e
      | Inr u \<Rightarrow> Inr (if u < 2147483648 then int u else int u - 4294967296))"

text \<open>
  A float64 is decoded to the real number it denotes (sign bit, 11 exponent bits, 52
  fraction bits, little-endian). The development computes with these reals exactly: the
  rounding of double arithmetic, the rounding of a store into a Float32Array, and the
  non-finite doubles (exponent field 2047) are outside the model.
\<close>

definition uint64_le :: "buffer \<Rightarrow> nat \<Rightarrow> nat" where
  "uint64_le buf off =
     foldr (\<lambda>b acc. unat b + 256 * acc) (take 8 (drop off buf)) 0"

definition float64_value :: "nat \<Rightarrow> real" where
  "float64_value w =
     (let m = w mod 2 ^ 52; e = (w div 2 ^ 52) mod 2048; neg = (w div 2 ^ 63 = 1);
          mag = (if e = 0 then real m * 2 powr (- 1074)
                 else real (2 ^ 52 + m) * 2 powr (real e - 1075))
      in if neg then - mag else mag)"

definition getFloat64 :: "buffer \<Rightarrow> nat \<Rightarrow> error + real" where
  "getFloat64 buf off =
     (if off + 8 \<le> length buf then Inr (float64_value (uint64_le buf off))
      else Inl RangeError)"

section \<open>JavaScript numbers holding integers\<close>

text \<open>
  Counts, indices and offsets are JavaScript numbers, that is doubles. On the naturals
  below \<open>2 ^ 53\<close> the sums, products and comparisons of doubles are exact, and the
  development models such quantities as \<open>nat\<close>. Two computations of the sources are
  modelled with their rounding, because their exact value can need more than 53 bits
  or is not an integer: the 64-bit point count, \<open>low + high * 0x100000000\<close> (here),
  and the quotient \<open>totalPoints / maxPoints\<close> of the subsampling stride (with the
  point decoder). In the count the product is exact (a 32-bit value times a power of
  two), and the sum is the exact sum rounded to 53 significant bits, ties to even.
  \<open>round_double\<close> is that rounding.
\<close>

fun bit_length :: "nat \<Rightarrow> nat" where
  "bit_length n = (if n = 0 then 0 else Suc (bit_length (n div 2)))"

declare bit_length.simps [simp del]

definition round_double :: "nat \<Rightarrow> nat" where
  "round_double n =
     (if bit_length n \<le> 53 then n
      else let e = bit_length n - 53; q = n div 2 ^ e; r = n mod 2 ^ e; h = 2 ^ (e - 1)
           in if r < h \<or> (r = h \<and> even q) then q * 2 ^ e else (q + 1) * 2 ^ e)"

definition count64_of :: "nat \<Rightarrow> nat \<Rightarrow> nat" where
  "count64_of low high = round_double (low + high * 4294967296)"

section \<open>The header\<close>

record header =
  signature :: string
  versionMajor :: nat
  versionMinor :: nat
  headerSize :: nat
  offsetToPointData :: nat
  pointDataRecordFormat :: nat
  pointDataRecordLength :: nat
  numberOfPoints :: nat
  scaleX :: real
  scaleY :: real
  scaleZ :: real
  offsetX :: real
  offsetY :: real
  offsetZ :: real

definition readSignature :: "buffer \<Rightarrow> error + string" where
  "readSignature buf =
     bind (getUint8 buf 0) (\<lambda>c0.
     bind (getUint8 buf 1) (\<lambda>c1.
     bind (getUint8 buf 2) (\<lambda>c2.
     bind (getUint8 buf 3) (\<lambda>c3.
       Inr (map char_of [c0, c1, c2, c3])))))"

text \<open>
  The 64-bit resolution of the point count, as \<open>parseHeader\<close> and
  \<open>readLazHeader\<close> each write it out (the two functions hold the same lines).
\<close>

definition resolveCount :: "buffer \<Rightarrow> nat \<Rightarrow> nat \<Rightarrow> nat \<Rightarrow> nat \<Rightarrow> error + nat" where
  "resolveCount buf vMajor vMinor hSize legacy =
     (if vMajor \<ge> 1 \<and> vMinor \<ge> 4 \<and> hSize \<ge> 375
      then bind (getUint32 buf 247) (\<lambda>low.
           bind (getUint32 buf 251) (\<lambda>high.
             let count64 = count64_of low high
             in Inr (if count64 > 0 then count64 else legacy)))
      else Inr legacy)"

definition parseHeader :: "buffer \<Rightarrow> error + header" where
  "parseHeader buf =
     bind (readSignature buf) (\<lambda>sig.
     if sig \<noteq> ''LASF'' then Inl (InvalidLasSignature sig) else
     bind (getUint8 buf 24) (\<lambda>vMajor.
     bind (getUint8 buf 25) (\<lambda>vMinor.
     bind (getUint16 buf 94) (\<lambda>hSize.
     bind (getUint32 buf 96) (\<lambda>offPoints.
     bind (getUint8 buf 104) (\<lambda>fmt.
     bind (getUint16 buf 105) (\<lambda>recLen.
     bind (getUint32 buf 107) (\<lambda>legacy.
     bind (getFloat64 buf 131) (\<lambda>sx.
     bind (getFloat64 buf 139) (\<lambda>sy.
     bind (getFloat64 buf 147) (\<lambda>sz.
     bind (getFloat64 buf 155) (\<lambda>ox.
     bind (getFloat64 buf 163) (\<lambda>oy.
     bind (getFloat64 buf 171) (\<lambda>oz.
     bind (resolveCount buf vMajor vMinor hSize legacy) (\<lambda>n.
       Inr \<lparr>signature = sig, versionMajor = vMajor, versionMinor = vMinor,
            headerSize = hSize, offsetToPointData = offPoints,
            pointDataRecordFormat = fmt, pointDataRecordLength = recLen,
            numberOfPoints = n,
            scaleX = sx, scaleY = sy, scaleZ = sz,
            offsetX = ox, offsetY = oy, offsetZ = oz\<rparr>)))))))))))))))"

definition readLazHeader :: "buffer \<Rightarrow> error + header" where
  "readLazHeader buf =
     bind (readSignature buf) (\<lambda>sig.
     if sig \<noteq> ''LASF'' then Inl InvalidLazSignature else
     bind (getUint8 buf 24) (\<lambda>vMajor.
     bind (getUint8 buf 25) (\<lambda>vMinor.
     bind (getUint16 buf 94) (\<lambda>hSize.
     bind (getUint32 buf 96) (\<lambda>offPoints.
     bind (getUint8 buf 104) (\<lambda>fmt.
     bind (getUint16 buf 105) (\<lambda>recLen.
     bind (getUint32 buf 107) (\<lambda>legacy.
     bind (getFloat64 buf 131) (\<lambda>sx.
     bind (getFloat64 buf 139) (\<lambda>sy.
     bind (getFloat64 buf 147) (\<lambda>sz.
     bind (getFloat64 buf 155) (\<lambda>ox.
     bind (getFloat64 buf 163) (\<lambda>oy.
     bind (getFloat64 buf 171) (\<lambda>oz.
     bind (resolveCount buf vMajor vMinor hSize legacy) (\<lambda>n.
       Inr \<lparr>signature = sig, versionMajor = vMajor, versionMinor = vMinor,
            headerSize = hSize, offsetToPointData = offPoints,
            pointDataRecordFormat = fmt, pointDataRecordLength = recLen,
            numberOfPoints = n,
            scaleX = sx, scaleY = sy, scaleZ = sz,
            offsetX = ox, offsetY = oy, offsetZ = oz\<rparr>)))))))))))))))"
text \<open>
  The little-endian values that stand at an offset of a buffer, for stating what a read
  returns when it is in range.
\<close>

definition uint16_at :: "buffer \<Rightarrow> nat \<Rightarrow> nat" where
  "uint16_at buf off = unat (buf ! off) + 256 * unat (buf ! (off + 1))"

definition uint32_at :: "buffer \<Rightarrow> nat \<Rightarrow> nat" where
  "uint32_at buf off =
     unat (buf ! off) + 256 * unat (buf ! (off + 1)) + 65536 * unat (buf ! (off + 2))
     + 16777216 * unat (buf ! (off + 3))"

definition int32_at :: "buffer \<Rightarrow> nat \<Rightarrow> int" where
  "int32_at buf off =
     (let u = uint32_at buf off
      in if u < 2147483648 then int u else int u - 4294967296)"

text \<open>
  The vocabulary of the point-count claim: the raw legacy field (uint32 at offset 107) and
  the raw extended field (low uint32 at 247 plus high uint32 at 251 times \<open>2 ^ 32\<close>),
  as natural numbers, two concrete 375-byte headers of version 1.4, and a 227-byte header
  of version 1.2 with a legacy count of 1000.
\<close>

definition legacy_count_field :: "buffer \<Rightarrow> nat" where
  "legacy_count_field buf = uint32_at buf 107"

definition extended_count_field :: "buffer \<Rightarrow> nat" where
  "extended_count_field buf = uint32_at buf 247 + uint32_at buf 251 * 2 ^ 32"

definition las_1_4_header :: buffer where
  "las_1_4_header =
     (replicate 375 0)[0 := 0x4C, 1 := 0x41, 2 := 0x53, 3 := 0x46, 24 := 1, 25 := 4,
        94 := 0x77, 95 := 0x01, 96 := 0x77, 97 := 0x01, 104 := 6, 105 := 30,
        107 := 7, 247 := 0x00, 248 := 0xF2, 249 := 0x05, 250 := 0x2A, 251 := 0x01]"

definition las_2p53_header :: buffer where
  "las_2p53_header =
     (replicate 375 0)[0 := 0x4C, 1 := 0x41, 2 := 0x53, 3 := 0x46, 24 := 1, 25 := 4,
        94 := 0x77, 95 := 0x01, 96 := 0x77, 97 := 0x01, 104 := 6, 105 := 30,
        107 := 7, 247 := 0x01, 253 := 0x20]"

definition las_1_2_header :: buffer where
  "las_1_2_header =
     (replicate 227 0)[0 := 0x4C, 1 := 0x41, 2 := 0x53, 3 := 0x46, 24 := 1, 25 := 2,
        94 := 0xE3, 96 := 0xE3, 104 := 2, 105 := 26, 107 := 0xE8, 108 := 0x03]"

section \<open>The point record decoder\<close>

text \<open>
  The constructor of the parser keeps the buffer and the point budget:
  \<open>this.maxPoints = options.maxPoints || 2000000\<close>, so an absent or zero option gives
  the default. The progress sink is not modelled: it receives numbers and returns nothing.
\<close>

record parser =
  parser_buffer :: buffer
  maxPoints :: nat

definition LASParser :: "buffer \<Rightarrow> nat option \<Rightarrow> parser" where
  "LASParser arrayBuffer opt_maxPoints =
     \<lparr>parser_buffer = arrayBuffer,
      maxPoints = (case opt_maxPoints of None \<Rightarrow> 2000000
                   | Some m \<Rightarrow> if m = 0 then 2000000 else m)\<rparr>"

definition elevationColor :: "real \<Rightarrow> real \<times> real \<times> real" where
  "elevationColor t0 =
     (let t = max 0 (min 1 t0)
      in if t < 0.25 then (0, t * 4, 1)
         else if t < 0.5 then (0, 1, 1 - (t - 0.25) * 4)
         else if t < 0.75 then ((t - 0.5) * 4, 1, 0)
         else (1, 1 - (t - 0.75) * 4, 0))"

text \<open>The switch on the point format: whether a colour block exists, and where.\<close>

definition rgbLayout :: "nat \<Rightarrow> bool \<times> nat" where
  "rgbLayout format =
     (if format = 2 then (True, 20)
      else if format = 3 \<or> format = 5 then (True, 28)
      else if format = 7 \<or> format = 8 \<or> format = 10 then (True, 30)
      else (False, 0))"

text \<open>
  The stride, \<open>totalPoints > maxPoints ? Math.ceil(totalPoints / maxPoints) : 1\<close>.
  The quotient of two doubles is the exact quotient rounded to 53 significant bits, ties
  to even, and \<open>Math.ceil\<close> is taken of the rounded value. \<open>round_half_even p q\<close> is
  the integer nearest to \<open>p / q\<close>, ties to even. For \<open>a \<ge> b > 0\<close> the quotient
  \<open>a / b\<close> lies in \<open>[2 ^ e, 2 ^ (e + 1))\<close> with \<open>e\<close> one less than the bit length of
  \<open>a div b\<close>, so its double is a multiple of \<open>2 ^ (e - 52)\<close>: with \<open>e \<le> 52\<close> it is
  \<open>n / 2 ^ (52 - e)\<close> for \<open>n\<close> the integer nearest to \<open>a * 2 ^ (52 - e) / b\<close>, and
  with \<open>e > 52\<close> it is the integer \<open>n * 2 ^ (e - 52)\<close> for \<open>n\<close> the integer nearest
  to \<open>a / (b * 2 ^ (e - 52))\<close>. \<open>ceil_quotient a b\<close> is the ceiling of that double.
  The branch is taken only with \<open>totalPoints > maxPoints\<close>; the constructor never
  leaves \<open>maxPoints = 0\<close>, and the quotient by zero (\<open>Infinity\<close>) is not modelled:
  every statement below is about a positive budget.
\<close>

definition round_half_even :: "nat \<Rightarrow> nat \<Rightarrow> nat" where
  "round_half_even p q =
     (let d = p div q; r = p mod q
      in if 2 * r < q then d else if q < 2 * r then d + 1 else if even d then d else d + 1)"

definition ceil_quotient :: "nat \<Rightarrow> nat \<Rightarrow> nat" where
  "ceil_quotient a b =
     (let e = bit_length (a div b) - 1
      in if e \<le> 52
         then (let s = 52 - e; n = round_half_even (a * 2 ^ s) b in (n + 2 ^ s - 1) div 2 ^ s)
         else (let s = e - 52 in round_half_even a (b * 2 ^ s) * 2 ^ s))"

definition stride :: "nat \<Rightarrow> nat \<Rightarrow> nat" where
  "stride totalPoints maxPts =
     (if totalPoints > maxPts then ceil_quotient totalPoints maxPts else 1)"

record raw_point =
  pt_lon :: real
  pt_lat :: real
  pt_z :: real
  pt_offset :: nat

text \<open>
  The state of the first loop: the points read so far and the six running extrema. An
  extremum is \<open>None\<close> while it still holds its initial \<open>Infinity\<close> or
  \<open>-Infinity\<close>, which every coordinate replaces.
\<close>

record read_state =
  rawPoints :: "raw_point list"
  minLon :: "real option"
  maxLon :: "real option"
  minLat :: "real option"
  maxLat :: "real option"
  minZ :: "real option"
  maxZ :: "real option"

definition initial_read_state :: read_state where
  "initial_read_state =
     \<lparr>rawPoints = [], minLon = None, maxLon = None, minLat = None, maxLat = None,
      minZ = None, maxZ = None\<rparr>"

definition lower :: "real \<Rightarrow> real option \<Rightarrow> real option" where
  "lower v m = (case m of None \<Rightarrow> Some v | Some x \<Rightarrow> if v < x then Some v else Some x)"

definition raise :: "real \<Rightarrow> real option \<Rightarrow> real option" where
  "raise v m = (case m of None \<Rightarrow> Some v | Some x \<Rightarrow> if v > x then Some v else Some x)"

definition readCoords :: "buffer \<Rightarrow> nat \<Rightarrow> error + (int \<times> int \<times> int)" where
  "readCoords buf off =
     bind (getInt32 buf off) (\<lambda>rawX.
     bind (getInt32 buf (off + 4)) (\<lambda>rawY.
     bind (getInt32 buf (off + 8)) (\<lambda>rawZ.
       Inr (rawX, rawY, rawZ))))"

definition makePoint :: "header \<Rightarrow> nat \<Rightarrow> int \<times> int \<times> int \<Rightarrow> raw_point" where
  "makePoint h off raw =
     (case raw of (rawX, rawY, rawZ) \<Rightarrow>
        \<lparr>pt_lon = real_of_int rawX * scaleX h + offsetX h,
         pt_lat = real_of_int rawY * scaleY h + offsetY h,
         pt_z = real_of_int rawZ * scaleZ h + offsetZ h,
         pt_offset = off\<rparr>)"

definition pushPoint :: "raw_point \<Rightarrow> read_state \<Rightarrow> read_state" where
  "pushPoint pt st =
     \<lparr>rawPoints = rawPoints st @ [pt],
      minLon = lower (pt_lon pt) (minLon st), maxLon = raise (pt_lon pt) (maxLon st),
      minLat = lower (pt_lat pt) (minLat st), maxLat = raise (pt_lat pt) (maxLat st),
      minZ = lower (pt_z pt) (minZ st), maxZ = raise (pt_z pt) (maxZ st)\<rparr>"

text \<open>
  The first loop, \<open>for (let i = 0; i < totalPoints; i += step)\<close>, with its
  \<open>break\<close>. With a zero step the loop of the source never ends; the model then has
  no result (\<open>None\<close>).

  The index \<open>i\<close> and the byte offset are naturals here, computed exactly, where the
  source computes \<open>i += step\<close>, \<open>offsetToPointData + i * recordLen\<close> and
  \<open>offset + 12\<close> in doubles. For a point count and a buffer length below
  \<open>2 ^ 53\<close> the two agree: an index below the count and an offset that passes the
  bounds check are below \<open>2 ^ 53\<close> and exact, and a sum or product that is rounded is
  at least \<open>2 ^ 53\<close> before and after rounding, hence past the count or the buffer
  length either way. From \<open>2 ^ 53\<close> on the source's index is rounded at every step and
  the records it visits can differ from those of the model; the statements on which
  records are kept therefore assume a count and a buffer length below \<open>2 ^ 53\<close>.
\<close>

partial_function (option) readPoints ::
  "header \<Rightarrow> buffer \<Rightarrow> nat \<Rightarrow> nat \<Rightarrow> read_state \<Rightarrow> (error + read_state) option" where
  "readPoints h buf step i st =
     (if i < numberOfPoints h then
        (let off = offsetToPointData h + i * pointDataRecordLength h
         in if off + 12 > length buf then Some (Inr st)
            else (case readCoords buf off of
                    Inl e \<Rightarrow> Some (Inl e)
                  | Inr raw \<Rightarrow> readPoints h buf step (i + step) (pushPoint (makePoint h off raw) st)))
      else Some (Inr st))"

text \<open>
  The colour of one point, lines 284 to 316 of the parser. \<open>channelColor\<close> is the
  assignment chain on \<open>r\<close>, \<open>g\<close>, \<open>b\<close>, which start at 0.5.
\<close>

definition channelColor :: "nat \<Rightarrow> nat \<Rightarrow> nat \<Rightarrow> real \<times> real \<times> real" where
  "channelColor red green blue =
     (if red > 255 \<or> green > 255 \<or> blue > 255
      then (real red / 65535, real green / 65535, real blue / 65535)
      else if red > 0 \<or> green > 0 \<or> blue > 0
      then (real red / 255, real green / 255, real blue / 255)
      else (0.5, 0.5, 0.5))"

definition pointColor ::
  "buffer \<Rightarrow> bool \<Rightarrow> nat \<Rightarrow> real \<Rightarrow> real \<Rightarrow> raw_point \<Rightarrow> error + (real \<times> real \<times> real)" where
  "pointColor buf hasRGB rgbOffset minZv zRange pt =
     (if hasRGB \<and> pt_offset pt + rgbOffset + 6 \<le> length buf then
        bind (getUint16 buf (pt_offset pt + rgbOffset)) (\<lambda>red.
        bind (getUint16 buf (pt_offset pt + rgbOffset + 2)) (\<lambda>green.
        bind (getUint16 buf (pt_offset pt + rgbOffset + 4)) (\<lambda>blue.
          let rgb = channelColor red green blue
          in Inr (if fst rgb = 0 \<and> fst (snd rgb) = 0 \<and> snd (snd rgb) = 0
                  then elevationColor ((pt_z pt - minZv) / zRange)
                  else rgb))))
      else Inr (elevationColor ((pt_z pt - minZv) / zRange)))"

definition pointPosition :: "real \<Rightarrow> real \<Rightarrow> real \<Rightarrow> real \<Rightarrow> raw_point \<Rightarrow> real list" where
  "pointPosition centerLon centerLat centerZ metersPerDegreeLon pt =
     [(pt_lon pt - centerLon) * metersPerDegreeLon,
      (pt_lat pt - centerLat) * 111320,
      pt_z pt - centerZ]"

text \<open>
  The second loop fills the two arrays point by point; an exception of a colour read
  would leave it at once.
\<close>

fun fillArrays ::
  "(raw_point \<Rightarrow> real list) \<Rightarrow> (raw_point \<Rightarrow> error + (real \<times> real \<times> real)) \<Rightarrow>
   raw_point list \<Rightarrow> error + (real list \<times> real list)" where
  "fillArrays pos col [] = Inr ([], [])"
| "fillArrays pos col (pt # pts) =
     bind (col pt) (\<lambda>c.
     bind (fillArrays pos col pts) (\<lambda>rest.
       case c of (r, g, b) \<Rightarrow>
         Inr (pos pt @ fst rest, [r, g, b] @ snd rest)))"

record points_result =
  positions :: "real list"
  colors :: "real list"
  loadedPoints :: nat
  center :: "(real \<times> real \<times> real) option"
  extentMeters :: "(real \<times> real \<times> real) option"

text \<open>
  Everything of \<open>parsePoints\<close> after the first loop. While no point was read the
  extrema are still infinite, the second loop does not run, both arrays are empty, and
  the centre and the extent are not finite numbers (\<open>None\<close>).
\<close>

definition projectAndColor :: "header \<Rightarrow> buffer \<Rightarrow> read_state \<Rightarrow> error + points_result" where
  "projectAndColor h buf st =
     (case (minLon st, maxLon st, minLat st, maxLat st, minZ st, maxZ st) of
        (Some lon0, Some lon1, Some lat0, Some lat1, Some z0, Some z1) \<Rightarrow>
          (let centerLon = (lon0 + lon1) / 2;
               centerLat = (lat0 + lat1) / 2;
               centerZ = (z0 + z1) / 2;
               DEG_TO_RAD = pi / 180;
               metersPerDegreeLat = 111320;
               metersPerDegreeLon = 111320 * cos (centerLat * DEG_TO_RAD);
               numPoints = length (rawPoints st);
               zRange = (if z1 - z0 = 0 then 1 else z1 - z0);
               layout = rgbLayout (pointDataRecordFormat h)
           in bind (fillArrays (pointPosition centerLon centerLat centerZ metersPerDegreeLon)
                               (pointColor buf (fst layout) (snd layout) z0 zRange)
                               (rawPoints st)) (\<lambda>arrays.
                Inr \<lparr>positions = fst arrays, colors = snd arrays,
                     loadedPoints = numPoints,
                     center = Some (centerLon, centerLat, centerZ),
                     extentMeters = Some ((lon1 - lon0) * metersPerDegreeLon,
                                          (lat1 - lat0) * metersPerDegreeLat,
                                          z1 - z0)\<rparr>))
      | _ \<Rightarrow> Inr \<lparr>positions = [], colors = [], loadedPoints = length (rawPoints st),
                  center = None, extentMeters = None\<rparr>)"

definition readPhase :: "header \<Rightarrow> buffer \<Rightarrow> nat \<Rightarrow> (error + read_state) option" where
  "readPhase h buf maxPts =
     readPoints h buf (stride (numberOfPoints h) maxPts) 0 initial_read_state"

definition parsePoints :: "header \<Rightarrow> buffer \<Rightarrow> nat \<Rightarrow> (error + points_result) option" where
  "parsePoints h buf maxPts =
     (case readPhase h buf maxPts of
        None \<Rightarrow> None
      | Some r \<Rightarrow> Some (bind r (projectAndColor h buf)))"

definition parse :: "parser \<Rightarrow> (error + header \<times> points_result) option" where
  "parse p =
     (case parseHeader (parser_buffer p) of
        Inl e \<Rightarrow> Some (Inl e)
      | Inr h \<Rightarrow>
          (case parsePoints h (parser_buffer p) (maxPoints p) of
             None \<Rightarrow> None
           | Some r \<Rightarrow> Some (bind r (\<lambda>pts. Inr (h, pts)))))"

text \<open>
  The vocabulary of the claims on the first loop: the byte offset of record \<open>i\<close>,
  whether its twelve coordinate bytes lie in the buffer, the point it decodes to, and
  the indices \<open>i, i + step, \<dots>\<close> below \<open>n\<close> that the loop header visits.
\<close>

definition recordOffset :: "header \<Rightarrow> nat \<Rightarrow> nat" where
  "recordOffset h i = offsetToPointData h + i * pointDataRecordLength h"

definition fitsBuffer :: "header \<Rightarrow> buffer \<Rightarrow> nat \<Rightarrow> bool" where
  "fitsBuffer h buf i \<longleftrightarrow> recordOffset h i + 12 \<le> length buf"

definition pointAt :: "header \<Rightarrow> buffer \<Rightarrow> nat \<Rightarrow> raw_point" where
  "pointAt h buf i =
     makePoint h (recordOffset h i)
       (int32_at buf (recordOffset h i), int32_at buf (recordOffset h i + 4),
        int32_at buf (recordOffset h i + 8))"

definition indicesFrom :: "nat \<Rightarrow> nat \<Rightarrow> nat \<Rightarrow> nat list" where
  "indicesFrom i step n = map (\<lambda>k. i + k * step) [0..<(n - i + step - 1) div step]"

text \<open>
  The first loop keeps its extrema in step with the points it has read: none while the
  list is empty, the least and the greatest coordinate afterwards.
\<close>

definition bounds_ok :: "read_state \<Rightarrow> bool" where
  "bounds_ok st \<longleftrightarrow>
     (if rawPoints st = []
      then minLon st = None \<and> maxLon st = None \<and> minLat st = None \<and> maxLat st = None
           \<and> minZ st = None \<and> maxZ st = None
      else minLon st = Some (Min (pt_lon ` set (rawPoints st)))
           \<and> maxLon st = Some (Max (pt_lon ` set (rawPoints st)))
           \<and> minLat st = Some (Min (pt_lat ` set (rawPoints st)))
           \<and> maxLat st = Some (Max (pt_lat ` set (rawPoints st)))
           \<and> minZ st = Some (Min (pt_z ` set (rawPoints st)))
           \<and> maxZ st = Some (Max (pt_z ` set (rawPoints st))))"

definition mid :: "real set \<Rightarrow> real" where
  "mid S = (Min S + Max S) / 2"

definition triple :: "real \<times> real \<times> real \<Rightarrow> real list" where
  "triple c = (case c of (r, g, b) \<Rightarrow> [r, g, b])"

text \<open>
  The vocabulary of the claims on the second loop: the centre that \<open>parsePoints\<close>
  subtracts, the elevation range with its zero replaced by one, the normalized elevation
  of a point, and the colour that the decoder gives a point.
\<close>

definition centerOf :: "raw_point list \<Rightarrow> real \<times> real \<times> real" where
  "centerOf pts =
     (mid (pt_lon ` set pts), mid (pt_lat ` set pts), mid (pt_z ` set pts))"

definition zRangeOf :: "raw_point list \<Rightarrow> real" where
  "zRangeOf pts =
     (if Max (pt_z ` set pts) - Min (pt_z ` set pts) = 0 then 1
      else Max (pt_z ` set pts) - Min (pt_z ` set pts))"

definition normalizedElevation :: "raw_point list \<Rightarrow> raw_point \<Rightarrow> real" where
  "normalizedElevation pts pt = (pt_z pt - Min (pt_z ` set pts)) / zRangeOf pts"

definition projected :: "raw_point list \<Rightarrow> raw_point \<Rightarrow> real list" where
  "projected pts pt =
     (case centerOf pts of (centerLon, centerLat, centerZ) \<Rightarrow>
        [(pt_lon pt - centerLon) * (111320 * cos (centerLat * (pi / 180))),
         (pt_lat pt - centerLat) * 111320,
         pt_z pt - centerZ])"

definition colorOf :: "header \<Rightarrow> buffer \<Rightarrow> raw_point list \<Rightarrow> raw_point \<Rightarrow> real \<times> real \<times> real" where
  "colorOf h buf pts pt =
     projr (pointColor buf (fst (rgbLayout (pointDataRecordFormat h)))
              (snd (rgbLayout (pointDataRecordFormat h)))
              (Min (pt_z ` set pts)) (zRangeOf pts) pt)"

text \<open>
  Two centres of a flat position array \<open>[x0, y0, z0, x1, y1, z1, \<dots>]\<close>: the centre of
  its bounding box, which is how \<open>parsePoints\<close> computes the centre of the geodetic
  coordinates, and the centroid in the usual sense, the mean of the points.
\<close>

definition axisValues :: "nat \<Rightarrow> real list \<Rightarrow> real list" where
  "axisValues j ps = map (\<lambda>k. ps ! (3 * k + j)) [0..<length ps div 3]"

definition boxCenter :: "real list \<Rightarrow> real \<times> real \<times> real" where
  "boxCenter ps =
     (mid (set (axisValues 0 ps)), mid (set (axisValues 1 ps)), mid (set (axisValues 2 ps)))"

definition mean :: "real list \<Rightarrow> real" where
  "mean xs = sum_list xs / real (length xs)"

definition centroid :: "real list \<Rightarrow> real \<times> real \<times> real" where
  "centroid ps = (mean (axisValues 0 ps), mean (axisValues 1 ps), mean (axisValues 2 ps))"

section \<open>The compressed-stream decoder\<close>




section \<open>The slicing engine\<close>

text \<open>
  A percentage range and a pair of world-space bounds are both objects
  \<open>{min, max}\<close> of numbers.
\<close>

record slice_range =
  range_min :: real
  range_max :: real

record slicer_state =
  enabled :: bool
  slice_x :: slice_range
  slice_y :: slice_range
  slice_z :: slice_range
  boundsX :: slice_range
  boundsY :: slice_range
  boundsZ :: slice_range

definition full_range :: slice_range where
  "full_range = \<lparr>range_min = 0, range_max = 100\<rparr>"

definition initialState :: slicer_state where
  "initialState =
     \<lparr>enabled = False, slice_x = full_range, slice_y = full_range, slice_z = full_range,
      boundsX = full_range, boundsY = full_range, boundsZ = full_range\<rparr>"

datatype action =
    SET_ENABLED bool
  | SET_X slice_range
  | SET_Y slice_range
  | SET_Z slice_range
  | SET_BOUNDS slice_range slice_range slice_range
  | RESET_RANGES
  | RESET_ALL
  | INITIALIZE slice_range slice_range slice_range
  | UNKNOWN

fun slicerReducer :: "slicer_state \<Rightarrow> action \<Rightarrow> slicer_state" where
  "slicerReducer state (SET_ENABLED payload) = state\<lparr>enabled := payload\<rparr>"
| "slicerReducer state (SET_X payload) = state\<lparr>slice_x := payload\<rparr>"
| "slicerReducer state (SET_Y payload) = state\<lparr>slice_y := payload\<rparr>"
| "slicerReducer state (SET_Z payload) = state\<lparr>slice_z := payload\<rparr>"
| "slicerReducer state (SET_BOUNDS bx by bz) =
     state\<lparr>boundsX := bx, boundsY := by, boundsZ := bz\<rparr>"
| "slicerReducer state RESET_RANGES =
     state\<lparr>slice_x := full_range, slice_y := full_range, slice_z := full_range\<rparr>"
| "slicerReducer state RESET_ALL =
     initialState\<lparr>boundsX := boundsX state, boundsY := boundsY state,
                   boundsZ := boundsZ state\<rparr>"
| "slicerReducer state (INITIALIZE bx by bz) =
     initialState\<lparr>boundsX := bx, boundsY := by, boundsZ := bz\<rparr>"
| "slicerReducer state UNKNOWN = state"

text \<open>
  The slider handlers of the controls panel, the only callers of \<open>setX\<close>, \<open>setY\<close>
  and \<open>setZ\<close>: \<open>{...slice, min: Math.min(parseInt(value), slice.max - 1)}\<close> and
  \<open>{...slice, max: Math.max(parseInt(value), slice.min + 1)}\<close>.
\<close>

definition writeMin :: "slice_range \<Rightarrow> int \<Rightarrow> slice_range" where
  "writeMin sl v = sl\<lparr>range_min := min (real_of_int v) (range_max sl - 1)\<rparr>"

definition writeMax :: "slice_range \<Rightarrow> int \<Rightarrow> slice_range" where
  "writeMax sl v = sl\<lparr>range_max := max (real_of_int v) (range_min sl + 1)\<rparr>"

text \<open>
  The updates of the slice state that the application performs: the toggle button, the
  six sliders, the reset button (\<open>resetRanges\<close>), the load of a file
  (\<open>initialize\<close>) and a change of the rotation (\<open>updateBoundsForRotation\<close>).
\<close>

datatype axis = AxisX | AxisY | AxisZ

datatype ui_event =
    Toggle
  | SliderMin axis int
  | SliderMax axis int
  | ResetButton
  | FileLoaded slice_range slice_range slice_range
  | RotationChanged slice_range slice_range slice_range

fun dispatched :: "slicer_state \<Rightarrow> ui_event \<Rightarrow> action" where
  "dispatched state Toggle = SET_ENABLED (\<not> enabled state)"
| "dispatched state (SliderMin AxisX v) = SET_X (writeMin (slice_x state) v)"
| "dispatched state (SliderMin AxisY v) = SET_Y (writeMin (slice_y state) v)"
| "dispatched state (SliderMin AxisZ v) = SET_Z (writeMin (slice_z state) v)"
| "dispatched state (SliderMax AxisX v) = SET_X (writeMax (slice_x state) v)"
| "dispatched state (SliderMax AxisY v) = SET_Y (writeMax (slice_y state) v)"
| "dispatched state (SliderMax AxisZ v) = SET_Z (writeMax (slice_z state) v)"
| "dispatched state ResetButton = RESET_RANGES"
| "dispatched state (FileLoaded bx by bz) = INITIALIZE bx by bz"
| "dispatched state (RotationChanged bx by bz) = SET_BOUNDS bx by bz"

definition update :: "slicer_state \<Rightarrow> ui_event \<Rightarrow> slicer_state" where
  "update state ev = slicerReducer state (dispatched state ev)"

definition ranges_ok :: "slicer_state \<Rightarrow> bool" where
  "ranges_ok state \<longleftrightarrow>
     range_min (slice_x state) < range_max (slice_x state)
     \<and> range_min (slice_y state) < range_max (slice_y state)
     \<and> range_min (slice_z state) < range_max (slice_z state)"

text \<open>
  \<open>applySlice\<close>. A Float32Array read past its end is \<open>undefined\<close>
  (\<open>None\<close> here), which fails every comparison and is stored as NaN; an element of a
  derived array is therefore a number or NaN (\<open>None\<close>). The geometry holds the two
  attributes that the viewer gives it at load time. \<open>solidColor\<close> is the
  \<open>THREE.Color\<close> of the selected colour, or \<open>None\<close> when the selection is
  \<open>'original'\<close>.
\<close>

type_synonym float32 = "real option"

record geometry =
  position :: "float32 list"
  color :: "float32 list"

record three_ref =
  points :: "geometry option"
  originals :: "(real list \<times> real list) option"

definition elementAt :: "real list \<Rightarrow> nat \<Rightarrow> real option" where
  "elementAt xs i = (if i < length xs then Some (xs ! i) else None)"

definition solidColors :: "nat \<Rightarrow> real \<times> real \<times> real \<Rightarrow> float32 list" where
  "solidColors len c =
     (case c of (r, g, b) \<Rightarrow>
        take len (concat (replicate ((len + 2) div 3) [Some r, Some g, Some b])))"

definition worldBound :: "slice_range \<Rightarrow> real \<Rightarrow> real" where
  "worldBound bounds pct =
     range_min bounds + (pct / 100) * (range_max bounds - range_min bounds)"

definition inSlice ::
  "slicer_state \<Rightarrow> real \<Rightarrow> real option \<Rightarrow> real option \<Rightarrow> real option \<Rightarrow> bool" where
  "inSlice state rotationZ lx ly lz =
     (case (lx, ly, lz) of
        (Some localX, Some localY, Some localZ) \<Rightarrow>
          (let rotRad = (rotationZ * pi) / 180;
               cosR = cos rotRad;
               sinR = sin rotRad;
               worldX = localX * cosR - localY * sinR;
               worldY = localX * sinR + localY * cosR;
               worldZ = localZ
           in worldX \<ge> worldBound (boundsX state) (range_min (slice_x state))
              \<and> worldX \<le> worldBound (boundsX state) (range_max (slice_x state))
              \<and> worldY \<ge> worldBound (boundsY state) (range_min (slice_y state))
              \<and> worldY \<le> worldBound (boundsY state) (range_max (slice_y state))
              \<and> worldZ \<ge> worldBound (boundsZ state) (range_min (slice_z state))
              \<and> worldZ \<le> worldBound (boundsZ state) (range_max (slice_z state)))
      | _ \<Rightarrow> False)"

fun filterPoints ::
  "slicer_state \<Rightarrow> (real \<times> real \<times> real) option \<Rightarrow> real \<Rightarrow> real list \<Rightarrow> real list \<Rightarrow>
   nat list \<Rightarrow> float32 list \<times> float32 list" where
  "filterPoints state solid rotationZ originalPositions originalColors [] = ([], [])"
| "filterPoints state solid rotationZ originalPositions originalColors (i # rest) =
     (let localX = elementAt originalPositions (i * 3);
          localY = elementAt originalPositions (i * 3 + 1);
          localZ = elementAt originalPositions (i * 3 + 2);
          kept = filterPoints state solid rotationZ originalPositions originalColors rest
      in if inSlice state rotationZ localX localY localZ
         then ([localX, localY, localZ] @ fst kept,
               (case solid of
                  Some (r, g, b) \<Rightarrow> [Some r, Some g, Some b]
                | None \<Rightarrow> [elementAt originalColors (i * 3), elementAt originalColors (i * 3 + 1),
                            elementAt originalColors (i * 3 + 2)]) @ snd kept)
         else kept)"

definition applySlice ::
  "slicer_state \<Rightarrow> (real \<times> real \<times> real) option \<Rightarrow> real \<Rightarrow> three_ref \<Rightarrow> three_ref" where
  "applySlice state solidColor rotationZ ref =
     (case (points ref, originals ref) of
        (Some geom, Some (originalPositions, originalColors)) \<Rightarrow>
          (if \<not> enabled state then
             (if length (position geom) \<noteq> length originalPositions
              then ref\<lparr>points := Some
                     \<lparr>position = map Some originalPositions,
                      color = (case solidColor of
                                 None \<Rightarrow> map Some originalColors
                               | Some c \<Rightarrow> solidColors (length originalPositions) c)\<rparr>\<rparr>
              else ref)
           else
             (let filtered = filterPoints state solidColor rotationZ originalPositions
                               originalColors [0..<(length originalPositions + 2) div 3]
              in ref\<lparr>points := Some \<lparr>position = fst filtered, color = snd filtered\<rparr>\<rparr>))
      | _ \<Rightarrow> ref)"

definition pointCount :: "float32 list \<Rightarrow> real" where
  "pointCount array = real (length array) / 3"

text \<open>
  The viewer has a second writer of the colour attribute, the effect of LASViewer.jsx
  (lines 191 to 217) that runs when the colour choice or \<open>slicer.enabled\<close> changes:
  with the slicer on it leaves the geometry alone, with the slicer off it sets the
  colour attribute to a copy of the stored original colours, or to the solid colour at
  the length of the original colours. It runs when the slicer is switched off, before
  the debounced \<open>applySlice\<close>, while the position attribute still holds the filtered
  points.
\<close>

definition colorEffect ::
  "bool \<Rightarrow> (real \<times> real \<times> real) option \<Rightarrow> three_ref \<Rightarrow> three_ref" where
  "colorEffect slicerEnabled solidColor ref =
     (case (points ref, originals ref) of
        (Some geom, Some (originalPositions, originalColors)) \<Rightarrow>
          (if slicerEnabled then ref
           else ref\<lparr>points := Some
                  (geom\<lparr>color := (case solidColor of
                                     None \<Rightarrow> map Some originalColors
                                   | Some c \<Rightarrow> solidColors (length originalColors) c)\<rparr>)\<rparr>)
      | _ \<Rightarrow> ref)"

text \<open>
  Concrete inputs: a version 1.2 header record with unit scales and zero offsets whose
  point data start at byte 227, and point-data buffers for it.
\<close>

definition las_1_2 :: "nat \<Rightarrow> nat \<Rightarrow> nat \<Rightarrow> header" where
  "las_1_2 fmt recLen n =
     \<lparr>signature = ''LASF'', versionMajor = 1, versionMinor = 2, headerSize = 227,
      offsetToPointData = 227, pointDataRecordFormat = fmt, pointDataRecordLength = recLen,
      numberOfPoints = n, scaleX = 1, scaleY = 1, scaleZ = 1,
      offsetX = 0, offsetY = 0, offsetZ = 0\<rparr>"


definition five_records :: buffer where
  "five_records = replicate 327 0"

definition cut_color_file :: buffer where
  "cut_color_file = (replicate 273 0)[261 := 10]"

definition black_point_file :: buffer where
  "black_point_file = replicate 253 0"

definition three_heights :: buffer where
  "three_heights = (replicate 287 0)[275 := 3]"

definition three_heights_ref :: three_ref where
  "three_heights_ref =
     \<lparr>points = Some \<lparr>position = map Some [0, 0, - (3 / 2), 0, 0, - (3 / 2), 0, 0, 3 / 2],
                       color = map Some [0, 0, 1, 0, 0, 1, 1, 0, 0]\<rparr>,
      originals = Some ([0, 0, - (3 / 2), 0, 0, - (3 / 2), 0, 0, 3 / 2],
                        [0, 0, 1, 0, 0, 1, 1, 0, 0])\<rparr>"


text \<open>The geometry after the filter has kept the third of the three points.\<close>

definition sliced_ref :: three_ref where
  "sliced_ref =
     three_heights_ref\<lparr>points := Some \<lparr>position = [Some 0, Some 0, Some (3 / 2)],
                                          color = [Some 1, Some 0, Some 0]\<rparr>\<rparr>"


section \<open>Point-count resolution\<close>

lemma getUint32_eq: "off + 4 \<le> length buf \<Longrightarrow> getUint32 buf off = Inr (uint32_at buf off)"
  by (simp add: getUint32_def uint32_at_def)

lemma bit_length_le_iff: "bit_length n \<le> k \<longleftrightarrow> n < 2 ^ k"
proof (induction n arbitrary: k rule: bit_length.induct)
  case (1 n)
  show ?case
  proof (cases "n = 0")
    case True
    then show ?thesis by (simp add: bit_length.simps)
  next
    case False
    show ?thesis
    proof (cases k)
      case 0
      with False show ?thesis by (simp add: bit_length.simps)
    next
      case (Suc j)
      have "bit_length n \<le> Suc j \<longleftrightarrow> bit_length (n div 2) \<le> j"
        using False by (subst bit_length.simps) simp
      also have "\<dots> \<longleftrightarrow> n div 2 < 2 ^ j" using 1 False by simp
      also have "\<dots> \<longleftrightarrow> n < 2 ^ Suc j" by auto
      finally show ?thesis using Suc by simp
    qed
  qed
qed

lemma round_double_exact: "n < 2 ^ 53 \<Longrightarrow> round_double n = n"
  using bit_length_le_iff [of n 53] by (simp add: round_double_def)

lemma round_double_pos: "0 < n \<Longrightarrow> 0 < round_double n"
proof (cases "bit_length n \<le> 53")
  case True
  assume "0 < n"
  with True show ?thesis by (simp add: round_double_def)
next
  case False
  define e where "e = bit_length n - 53"
  have "\<not> bit_length n \<le> e" using False by (simp add: e_def)
  hence ge: "2 ^ e \<le> n" by (simp add: bit_length_le_iff)
  hence "0 < n div 2 ^ e" by (simp add: div_greater_zero_iff)
  with False show ?thesis by (simp add: round_double_def Let_def e_def)
qed

lemma round_double_pos_iff: "0 < round_double n \<longleftrightarrow> 0 < n"
  using round_double_pos [of n] round_double_exact [of 0] by (cases "n = 0") auto


lemma getUint16_eq: "off + 2 \<le> length buf \<Longrightarrow> getUint16 buf off = Inr (uint16_at buf off)"
  by (simp add: getUint16_def uint16_at_def)

lemma resolveCount_eq:
  assumes "1 \<le> vMajor \<and> 4 \<le> vMinor \<and> 375 \<le> hSize \<longrightarrow> 255 \<le> length buf"
  shows "resolveCount buf vMajor vMinor hSize (legacy_count_field buf) =
     Inr (if 1 \<le> vMajor \<and> 4 \<le> vMinor \<and> 375 \<le> hSize \<and> extended_count_field buf \<noteq> 0
          then round_double (extended_count_field buf) else legacy_count_field buf)"
proof (cases "1 \<le> vMajor \<and> 4 \<le> vMinor \<and> 375 \<le> hSize")
  case True
  with assms have "255 \<le> length buf" by simp
  with True show ?thesis
    by (simp add: resolveCount_def bind_def getUint32_eq count64_of_def Let_def
        extended_count_field_def round_double_pos_iff)
next
  case False
  then show ?thesis by (auto simp add: resolveCount_def)
qed

lemma header_counts:
  assumes "readSignature buf = Inr ''LASF''" and "179 \<le> length buf"
    and "1 \<le> unat (buf ! 24) \<and> 4 \<le> unat (buf ! 25) \<and> 375 \<le> uint16_at buf 94
         \<longrightarrow> 255 \<le> length buf"
  shows "\<exists>h l. parseHeader buf = Inr h \<and> readLazHeader buf = Inr l
           \<and> versionMajor h = unat (buf ! 24) \<and> versionMinor h = unat (buf ! 25)
           \<and> headerSize h = uint16_at buf 94
           \<and> numberOfPoints l = numberOfPoints h
           \<and> numberOfPoints h =
               (if 1 \<le> versionMajor h \<and> 4 \<le> versionMinor h \<and> 375 \<le> headerSize h
                   \<and> extended_count_field buf \<noteq> 0
                then round_double (extended_count_field buf)
                else legacy_count_field buf)
           \<and> offsetToPointData h = uint32_at buf 96 \<and> offsetToPointData l = uint32_at buf 96"
proof -
  have leg: "getUint32 buf 107 = Inr (legacy_count_field buf)"
    using assms(2) by (simp add: getUint32_eq legacy_count_field_def)
  have u8: "getUint8 buf 24 = Inr (unat (buf ! 24))" "getUint8 buf 25 = Inr (unat (buf ! 25))"
    "getUint8 buf 104 = Inr (unat (buf ! 104))"
    using assms(2) by (simp_all add: getUint8_def)
  have u16: "getUint16 buf 94 = Inr (uint16_at buf 94)"
    "getUint16 buf 105 = Inr (uint16_at buf 105)" "getUint32 buf 96 = Inr (uint32_at buf 96)"
    using assms(2) by (simp_all add: getUint16_eq getUint32_eq)
  have fl: "\<exists>v. getFloat64 buf 131 = Inr v" "\<exists>v. getFloat64 buf 139 = Inr v"
    "\<exists>v. getFloat64 buf 147 = Inr v" "\<exists>v. getFloat64 buf 155 = Inr v"
    "\<exists>v. getFloat64 buf 163 = Inr v" "\<exists>v. getFloat64 buf 171 = Inr v"
    using assms(2) by (simp_all add: getFloat64_def)
  from fl obtain sx sy sz ox oy oz where rd:
    "getFloat64 buf 131 = Inr sx" "getFloat64 buf 139 = Inr sy" "getFloat64 buf 147 = Inr sz"
    "getFloat64 buf 155 = Inr ox" "getFloat64 buf 163 = Inr oy" "getFloat64 buf 171 = Inr oz"
    by blast
  show ?thesis
    by (simp add: parseHeader_def readLazHeader_def assms(1) leg u8 u16 rd
        resolveCount_eq [OF assms(3)] bind_def)
qed

lemma char_of_LASF:
  "char_of (76::nat) = CHR ''L''" "char_of (65::nat) = CHR ''A''"
  "char_of (83::nat) = CHR ''S''" "char_of (70::nat) = CHR ''F''"
  by (simp_all add: char_of_def bit_iff_odd)

lemma bit_length_2p53: "bit_length 9007199254740993 = 54"
proof -
  have "bit_length 9007199254740993 \<le> 54" "\<not> bit_length 9007199254740993 \<le> 53"
    by (simp_all add: bit_length_le_iff)
  then show ?thesis by linarith
qed

lemma round_double_2p53: "round_double 9007199254740993 = 9007199254740992"
  unfolding round_double_def Let_def bit_length_2p53 by simp

lemma las_1_4_header_facts:
  "length las_1_4_header = 375"
  "readSignature las_1_4_header = Inr ''LASF''"
  "extended_count_field las_1_4_header = 5000000000"
  "legacy_count_field las_1_4_header = 7"
  "unat (las_1_4_header ! 24) = 1" "unat (las_1_4_header ! 25) = 4"
  "uint16_at las_1_4_header 94 = 375"
  by (simp_all add: las_1_4_header_def readSignature_def getUint8_def bind_def char_of_LASF
      extended_count_field_def legacy_count_field_def uint32_at_def uint16_at_def)

lemma las_2p53_header_facts:
  "length las_2p53_header = 375"
  "readSignature las_2p53_header = Inr ''LASF''"
  "extended_count_field las_2p53_header = 9007199254740993"
  "legacy_count_field las_2p53_header = 7"
  "unat (las_2p53_header ! 24) = 1" "unat (las_2p53_header ! 25) = 4"
  "uint16_at las_2p53_header 94 = 375"
  by (simp_all add: las_2p53_header_def readSignature_def getUint8_def bind_def char_of_LASF
      extended_count_field_def legacy_count_field_def uint32_at_def uint16_at_def)

lemma las_1_2_header_facts:
  "length las_1_2_header = 227"
  "readSignature las_1_2_header = Inr ''LASF''"
  "legacy_count_field las_1_2_header = 1000"
  "unat (las_1_2_header ! 24) = 1" "unat (las_1_2_header ! 25) = 2"
  "uint16_at las_1_2_header 94 = 227"
  by (simp_all add: las_1_2_header_def readSignature_def getUint8_def bind_def char_of_LASF
      legacy_count_field_def uint32_at_def uint16_at_def)

text \<open>
  Claim C1 (point-count resolution), as the code does it. For a buffer that starts with
  the signature and holds the bytes that the readers read (the 179 bytes up to the last
  offset field, and the 255 bytes up to the extended count when that one is read), both
  header readers succeed and agree on the point count. When the version has major
  \<open>\<ge> 1\<close> and minor \<open>\<ge> 4\<close>, the header length is at least 375 and the 64-bit field
  is nonzero, the count is the 64-bit field as a JavaScript number, that is
  \<open>round_double\<close> of \<open>low + high * 2 ^ 32\<close>, which is the field itself whenever
  the field is below \<open>2 ^ 53\<close>; in every other case it is the legacy 32-bit field.
\<close>

theorem point_count_resolution:
  assumes "readSignature buf = Inr ''LASF''" and "179 \<le> length buf"
    and "1 \<le> unat (buf ! 24) \<and> 4 \<le> unat (buf ! 25) \<and> 375 \<le> uint16_at buf 94
         \<longrightarrow> 255 \<le> length buf"
  shows "\<exists>h l. parseHeader buf = Inr h \<and> readLazHeader buf = Inr l
           \<and> versionMajor h = unat (buf ! 24) \<and> versionMinor h = unat (buf ! 25)
           \<and> headerSize h = uint16_at buf 94
           \<and> numberOfPoints l = numberOfPoints h
           \<and> numberOfPoints h =
               (if 1 \<le> versionMajor h \<and> 4 \<le> versionMinor h \<and> 375 \<le> headerSize h
                   \<and> extended_count_field buf \<noteq> 0
                then round_double (extended_count_field buf)
                else legacy_count_field buf)
           \<and> (extended_count_field buf < 2 ^ 53
                \<longrightarrow> round_double (extended_count_field buf) = extended_count_field buf)"
  using header_counts [OF assms] round_double_exact [of "extended_count_field buf"]
  by blast

theorem point_count_resolution_witness:
  "(\<exists>h l. parseHeader las_1_4_header = Inr h \<and> readLazHeader las_1_4_header = Inr l
      \<and> numberOfPoints h = 5000000000 \<and> numberOfPoints l = 5000000000
      \<and> legacy_count_field las_1_4_header = 7)
   \<and> (\<exists>h l. parseHeader las_1_2_header = Inr h \<and> readLazHeader las_1_2_header = Inr l
      \<and> numberOfPoints h = 1000 \<and> numberOfPoints l = 1000
      \<and> length las_1_2_header = 227)"
  using point_count_resolution [of las_1_4_header] point_count_resolution [of las_1_2_header]
  by (auto simp add: las_1_4_header_facts las_1_2_header_facts)

text \<open>
  The claim as stated, with the count equal to the 64-bit field for any header, fails at a
  version 1.4 header of length 375 whose 64-bit field is \<open>2 ^ 53 + 1\<close> (low word 1,
  high word \<open>2 ^ 21\<close>): the sum \<open>1 + 2097152 * 0x100000000\<close> is not a double, and
  the parsed count is \<open>2 ^ 53\<close>.
\<close>

theorem point_count_exact_counterexample:
  "map_sum id versionMajor (parseHeader las_2p53_header) = Inr 1
   \<and> map_sum id versionMinor (parseHeader las_2p53_header) = Inr 4
   \<and> map_sum id headerSize (parseHeader las_2p53_header) = Inr 375
   \<and> extended_count_field las_2p53_header = 9007199254740993
   \<and> map_sum id numberOfPoints (parseHeader las_2p53_header) = Inr 9007199254740992"
  using header_counts [of las_2p53_header]
  by (auto simp add: las_2p53_header_facts round_double_2p53)

section \<open>The first loop of the decoder in closed form\<close>

text \<open>The constructor never leaves a zero point budget.\<close>

lemma LASParser_maxPoints_pos: "0 < maxPoints (LASParser arrayBuffer opt_maxPoints)"
  by (simp add: LASParser_def split: option.splits)

lemma div_plus_small: "r < b \<Longrightarrow> (q * b + r) div b = (q::nat)"
  by simp

lemma ceil_div_nat:
  assumes "0 < b"
  shows "nat \<lceil>real a / real b\<rceil> = (a + b - 1) div b"
proof -
  have c: "\<lceil>real a / real b\<rceil> = - (- int a div int b)"
    using ceiling_divide_eq_div [of "int a" "int b"] by simp
  show ?thesis
  proof (cases "a mod b = 0")
    case True
    hence "- int a div int b = - int (a div b)"
      using assms by (simp add: zdiv_zminus1_eq_if zdiv_int zmod_int [symmetric])
    moreover have "a + b - 1 = (a div b) * b + (b - 1)"
      using True assms by (metis Nat.add_diff_assoc Suc_leI One_nat_def add.right_neutral div_mult_mod_eq mult.commute)
    hence "(a + b - 1) div b = a div b"
      using assms div_plus_small [of "b - 1" b "a div b"] by simp
    ultimately show ?thesis using c by simp
  next
    case False
    hence "- int a div int b = - int (a div b) - 1"
      using assms by (simp add: zdiv_zminus1_eq_if zdiv_int of_nat_mod [symmetric] del: of_nat_mod)
    moreover have "a + b - 1 = (a div b + 1) * b + (a mod b - 1)"
    proof -
      have pos: "0 < a mod b" using False by simp
      have "(a div b + 1) * b + (a mod b - 1) = ((a div b) * b + a mod b) + b - 1"
        using pos by (cases "a = 0") (simp_all add: algebra_simps)
      also have "\<dots> = a + b - 1" by (simp only: div_mult_mod_eq)
      finally show ?thesis by simp
    qed
    hence "(a + b - 1) div b = a div b + 1"
      using assms False div_plus_small [of "a mod b - 1" b "a div b + 1"]
      by (simp add: less_imp_diff_less)
    ultimately show ?thesis using c by simp
  qed
qed

text \<open>
  The stride in doubles: positive for every count and every positive budget, and the
  exact ceiling of the quotient for a count below \<open>2 ^ 53\<close>.
\<close>

lemma bit_length_bounds:
  assumes "0 < c"
  shows "2 ^ (bit_length c - 1) \<le> c" and "c < 2 ^ (Suc (bit_length c - 1))"
proof -
  have pos: "0 < bit_length c" using assms by (subst bit_length.simps) simp
  have "\<not> bit_length c \<le> bit_length c - 1" using pos by simp
  thus "2 ^ (bit_length c - 1) \<le> c" by (simp add: bit_length_le_iff)
  have "bit_length c \<le> Suc (bit_length c - 1)" by simp
  thus "c < 2 ^ (Suc (bit_length c - 1))" by (simp only: bit_length_le_iff)
qed

lemma round_half_even_ge_div: "p div q \<le> round_half_even p q"
  by (simp add: round_half_even_def Let_def)

lemma round_half_even_le:
  assumes "p \<le> m * q"
  shows "round_half_even p q \<le> m"
proof (cases "p div q < m")
  case True
  thus ?thesis by (simp add: round_half_even_def Let_def)
next
  case False
  show ?thesis
  proof (cases "q = 0")
    case True
    with assms have "p = 0" by simp
    thus ?thesis using True by (simp add: round_half_even_def)
  next
    case q: False
    have "p div q \<le> m" using assms q by (metis div_le_mono nonzero_mult_div_cancel_right)
    with False have d: "p div q = m" by simp
    have "p = (p div q) * q + p mod q" by simp
    with d assms have "p mod q = 0" by (metis add_le_same_cancel1 le_zero_eq)
    with d q show ?thesis by (simp add: round_half_even_def)
  qed
qed

lemma round_half_even_gt:
  assumes "(2 * m + 1) * q < 2 * p" and "0 < q"
  shows "m < round_half_even p q"
proof (cases "m < p div q")
  case True
  thus ?thesis using round_half_even_ge_div [of p q] by simp
next
  case False
  have "m * q < p" using assms by (simp add: algebra_simps) 
  hence "m \<le> p div q" using assms(2) by (metis less_imp_le_nat less_eq_div_iff_mult_less_eq)
  with False have d: "p div q = m" by simp
  have "p = m * q + p mod q" using d by (metis div_mult_mod_eq)
  hence "2 * p = 2 * m * q + 2 * (p mod q)" by (simp add: algebra_simps)
  with assms(1) have "q < 2 * (p mod q)" by (simp add: algebra_simps)
  with d show ?thesis by (simp add: round_half_even_def Let_def)
qed

lemma ceil_quotient_exact:
  assumes a: "a < 2 ^ 53" and b: "0 < b" and ab: "b < a"
  shows "ceil_quotient a b = (a + b - 1) div b"
proof -
  define c where "c = a div b"
  define e where "e = bit_length c - 1"
  define s where "s = 52 - e"
  define k where "k = (a + b - 1) div b"
  define n where "n = round_half_even (a * 2 ^ s) b"
  have cpos: "0 < c" using b ab by (simp add: c_def div_greater_zero_iff)
  have lo: "2 ^ e \<le> c" unfolding e_def by (rule bit_length_bounds(1) [OF cpos])
  have cb: "c * b \<le> a" by (simp add: c_def)
  have "c \<le> a" by (simp add: c_def)
  with lo a have "(2::nat) ^ e < 2 ^ 53" by simp
  have "e < 53"
  proof (rule ccontr)
    assume "\<not> e < 53"
    hence "(2::nat) ^ 53 \<le> 2 ^ e" by (intro power_increasing) simp_all
    with \<open>(2::nat) ^ e < 2 ^ 53\<close> show False by simp
  qed
  hence e52: "e \<le> 52" by simp
  hence es: "e + s = 52" by (simp add: s_def)
  have "2 ^ e * b \<le> c * b" using lo by (rule mult_le_mono1)
  hence "2 ^ e * b \<le> a" using cb by (rule le_trans)
  hence "2 ^ e * b < (2::nat) ^ 53" using a by (rule le_less_trans)
  also have "(2::nat) ^ 53 = 2 ^ e * 2 ^ Suc s" using es by (simp add: power_add [symmetric])
  finally have bs: "b < 2 ^ Suc s" by simp
  have kb: "a \<le> k * b"
  proof -
    have "a + b - 1 < (k + 1) * b" unfolding k_def using b
      by (metis Suc_eq_plus1 dividend_less_div_times add.commute mult.commute mult_Suc)
    thus ?thesis using b by (simp add: algebra_simps)
  qed
  have kpos: "0 < k" using kb ab by (cases k) simp_all
  have km: "(k - 1) * b < a"
  proof -
    have "k * b \<le> a + b - 1" unfolding k_def by simp
    moreover have "k * b = (k - 1) * b + b" using kpos by (cases k) simp_all
    ultimately show ?thesis using b by simp
  qed
  have up: "n \<le> k * 2 ^ s" unfolding n_def
  proof (rule round_half_even_le)
    have "a * 2 ^ s \<le> (k * b) * 2 ^ s" using kb by simp
    thus "a * 2 ^ s \<le> k * 2 ^ s * b" by (simp add: algebra_simps)
  qed
  have down: "(k - 1) * 2 ^ s < n" unfolding n_def
  proof (rule round_half_even_gt [OF _ b])
    have "(k - 1) * b + 1 \<le> a" using km by simp
    hence le: "((k - 1) * b + 1) * 2 ^ Suc s \<le> a * 2 ^ Suc s" by (rule mult_le_mono1)
    have "(2 * ((k - 1) * 2 ^ s) + 1) * b < ((k - 1) * b + 1) * 2 ^ Suc s"
      using bs by (simp add: algebra_simps)
    hence "(2 * ((k - 1) * 2 ^ s) + 1) * b < a * 2 ^ Suc s" using le by (rule less_le_trans)
    moreover have "a * 2 ^ Suc s = 2 * (a * 2 ^ s)" by simp
    ultimately show "(2 * ((k - 1) * 2 ^ s) + 1) * b < 2 * (a * 2 ^ s)" by (simp only:)
  qed
  have "(n + 2 ^ s - 1) div 2 ^ s = k"
  proof -
    obtain r where r: "n = (k - 1) * 2 ^ s + Suc r" using down by (metis less_iff_Suc_add add_Suc_right)
    have "k * 2 ^ s = (k - 1) * 2 ^ s + 2 ^ s" using kpos by (cases k) simp_all
    with up r have rs: "r < 2 ^ s" by simp
    have "n + 2 ^ s - 1 = k * 2 ^ s + r" using r \<open>k * 2 ^ s = (k - 1) * 2 ^ s + 2 ^ s\<close> by simp
    thus ?thesis using rs div_plus_small [of r "2 ^ s" k] by simp
  qed
  thus ?thesis
    unfolding ceil_quotient_def Let_def c_def [symmetric] e_def [symmetric] s_def [symmetric]
      n_def [symmetric] k_def
    using e52 by simp
qed

lemma ceil_quotient_pos:
  assumes b: "0 < b" and ab: "b < a"
  shows "0 < ceil_quotient a b"
proof -
  define c where "c = a div b"
  define e where "e = bit_length c - 1"
  have cpos: "0 < c" using b ab by (simp add: c_def div_greater_zero_iff)
  have lo: "2 ^ e \<le> c" unfolding e_def by (rule bit_length_bounds(1) [OF cpos])
  have cb: "c * b \<le> a" by (simp add: c_def)
  show ?thesis
  proof (cases "e \<le> 52")
    case True
    define s where "s = 52 - e"
    have "b * 2 ^ s \<le> a * 2 ^ s" using ab by simp
    hence "2 ^ s \<le> (a * 2 ^ s) div b" using b
      by (metis less_eq_div_iff_mult_less_eq mult.commute)
    hence "2 ^ s \<le> round_half_even (a * 2 ^ s) b"
      using round_half_even_ge_div [of "a * 2 ^ s" b] by simp
    hence "0 < (round_half_even (a * 2 ^ s) b + 2 ^ s - 1) div 2 ^ s"
      by (simp add: div_greater_zero_iff)
    thus ?thesis
      unfolding ceil_quotient_def Let_def c_def [symmetric] e_def [symmetric] s_def [symmetric]
      using True by simp
  next
    case False
    define s where "s = e - 52"
    have "2 ^ s \<le> (2::nat) ^ e" by (simp add: s_def)
    hence "2 ^ s \<le> c" using lo by (rule le_trans)
    hence "2 ^ s * b \<le> c * b" by (rule mult_le_mono1)
    hence "b * 2 ^ s \<le> c * b" by (simp only: mult.commute)
    hence "b * 2 ^ s \<le> a" using cb by (rule le_trans)
    hence "1 * (b * 2 ^ s) \<le> a" by simp
    hence "1 \<le> a div (b * 2 ^ s)" using b
      by (metis less_eq_div_iff_mult_less_eq mult_pos_pos zero_less_numeral zero_less_power)
    hence "0 < round_half_even a (b * 2 ^ s)"
      using round_half_even_ge_div [of a "b * 2 ^ s"] by simp
    thus ?thesis
      unfolding ceil_quotient_def Let_def c_def [symmetric] e_def [symmetric] s_def [symmetric]
      using False by simp
  qed
qed

lemma stride_pos: "0 < m \<Longrightarrow> 0 < stride n m"
  by (simp add: stride_def ceil_quotient_pos)

lemma stride_exact:
  assumes "0 < m" and "n < 2 ^ 53"
  shows "stride n m = (if n > m then nat \<lceil>real n / real m\<rceil> else 1)"
  using assms by (simp add: stride_def ceil_quotient_exact ceil_div_nat)

lemma bit_length_1099511627777: "bit_length 1099511627777 = 41"
proof -
  have "bit_length 1099511627777 \<le> 41" by (simp add: bit_length_le_iff)
  moreover have "\<not> bit_length 1099511627777 \<le> 40" by (simp add: bit_length_le_iff)
  ultimately show ?thesis by simp
qed


lemma indicesFrom_done: "0 < step \<Longrightarrow> n \<le> i \<Longrightarrow> indicesFrom i step n = []"
  by (simp add: indicesFrom_def)

lemma count_step:
  assumes "0 < step" "0 < (d::nat)"
  shows "(d + step - 1) div step = Suc ((d - step + step - 1) div step)"
proof (cases "d \<le> step")
  case True
  hence "(d + step - 1) div step = 1" using assms by (simp add: div_nat_eqI)
  with True assms show ?thesis by simp
next
  case False
  hence "d + step - 1 = (d - step + step - 1) + step" by simp
  thus ?thesis using assms by (metis div_add_self2 less_numeral_extra(3) Suc_eq_plus1)
qed

lemma indicesFrom_step:
  assumes "0 < step" "i < n"
  shows "indicesFrom i step n = i # indicesFrom (i + step) step n"
proof -
  have "(n - i + step - 1) div step = Suc ((n - (i + step) + step - 1) div step)"
    using count_step [OF assms(1), of "n - i"] assms(2) by simp
  thus ?thesis
    by (simp add: indicesFrom_def upt_conv_Cons map_Suc_upt [symmetric] del: upt_Suc)
qed


lemma getInt32_eq: "off + 4 \<le> length buf \<Longrightarrow> getInt32 buf off = Inr (int32_at buf off)"
  by (simp add: getInt32_def getUint32_eq int32_at_def Let_def)

lemma readCoords_fits:
  "off + 12 \<le> length buf \<Longrightarrow>
   readCoords buf off = Inr (int32_at buf off, int32_at buf (off + 4), int32_at buf (off + 8))"
  by (simp add: readCoords_def bind_def getInt32_eq)

lemma readPoints_closed:
  assumes "0 < step"
  shows "readPoints h buf step i st =
     Some (Inr (foldl (\<lambda>s j. pushPoint (pointAt h buf j) s) st
                  (takeWhile (fitsBuffer h buf) (indicesFrom i step (numberOfPoints h)))))"
proof (induction "numberOfPoints h - i" arbitrary: i st rule: less_induct)
  case less
  show ?case
  proof (cases "i < numberOfPoints h")
    case False
    then show ?thesis
      using assms by (subst readPoints.simps) (simp add: indicesFrom_done)
  next
    case True
    note idx = indicesFrom_step [OF assms True]
    show ?thesis
    proof (cases "fitsBuffer h buf i")
      case False
      then show ?thesis
        using True by (subst readPoints.simps) (simp add: idx fitsBuffer_def recordOffset_def Let_def)
    next
      case fits: True
      have smaller: "numberOfPoints h - (i + step) < numberOfPoints h - i"
        using assms True by simp
      have rc: "readCoords buf (recordOffset h i) =
                  Inr (int32_at buf (recordOffset h i), int32_at buf (recordOffset h i + 4),
                       int32_at buf (recordOffset h i + 8))"
        using fits by (simp add: readCoords_fits fitsBuffer_def)
      show ?thesis
        using True fits rc
        by (subst readPoints.simps)
           (simp add: idx less [OF smaller] fitsBuffer_def recordOffset_def pointAt_def Let_def)
    qed
  qed
qed

lemma rawPoints_foldl:
  "rawPoints (foldl (\<lambda>s j. pushPoint (f j) s) st js) = rawPoints st @ map f js"
  by (induction js arbitrary: st) (simp_all add: pushPoint_def)

lemma lower_eq: "lower v (Some x) = Some (min v x)" "lower v None = Some v"
  by (simp_all add: lower_def min_def)

lemma raise_eq: "raise v (Some x) = Some (max v x)" "raise v None = Some v"
  by (simp_all add: raise_def max_def)

lemma bounds_ok_initial: "bounds_ok initial_read_state"
  by (simp add: bounds_ok_def initial_read_state_def)

lemma bounds_ok_push: "bounds_ok st \<Longrightarrow> bounds_ok (pushPoint pt st)"
  by (cases "rawPoints st = []")
     (simp_all add: bounds_ok_def pushPoint_def lower_eq raise_eq)

lemma bounds_ok_foldl:
  "bounds_ok st \<Longrightarrow> bounds_ok (foldl (\<lambda>s j. pushPoint (f j) s) st js)"
  by (induction js arbitrary: st) (simp_all add: bounds_ok_push)


lemma pointColor_total: "\<exists>c. pointColor buf hasRGB rgbOffset z0 zr pt = Inr c"
proof -
  have "\<not> isl (pointColor buf hasRGB rgbOffset z0 zr pt)"
    by (simp add: pointColor_def bind_def getUint16_eq Let_def)
  thus ?thesis by (cases "pointColor buf hasRGB rgbOffset z0 zr pt") auto
qed

lemma pointColor_outside:
  "\<not> (hasRGB \<and> pt_offset pt + rgbOffset + 6 \<le> length buf) \<Longrightarrow>
   pointColor buf hasRGB rgbOffset z0 zr pt = Inr (elevationColor ((pt_z pt - z0) / zr))"
  by (auto simp add: pointColor_def)

lemma pointColor_black:
  assumes "hasRGB" "pt_offset pt + rgbOffset + 6 \<le> length buf"
    and "uint16_at buf (pt_offset pt + rgbOffset) = 0"
    and "uint16_at buf (pt_offset pt + rgbOffset + 2) = 0"
    and "uint16_at buf (pt_offset pt + rgbOffset + 4) = 0"
  shows "pointColor buf hasRGB rgbOffset z0 zr pt = Inr (1 / 2, 1 / 2, 1 / 2)"
  using assms by (simp add: pointColor_def bind_def getUint16_eq channelColor_def)

lemma fillArrays_closed:
  assumes "\<forall>pt \<in> set pts. \<exists>c. col pt = Inr c"
  shows "fillArrays pos col pts =
     Inr (concat (map pos pts), concat (map (\<lambda>pt. triple (projr (col pt))) pts))"
  using assms
  by (induction pts) (auto simp add: bind_def triple_def split: prod.splits)

lemma projectAndColor_empty:
  assumes "bounds_ok st" "rawPoints st = []"
  shows "projectAndColor h buf st =
     Inr \<lparr>positions = [], colors = [], loadedPoints = 0, center = None, extentMeters = None\<rparr>"
  using assms by (simp add: projectAndColor_def bounds_ok_def)

lemma projectAndColor_nonempty:
  assumes "bounds_ok st" "rawPoints st \<noteq> []"
  shows "\<exists>res. projectAndColor h buf st = Inr res
           \<and> positions res = concat (map (projected (rawPoints st)) (rawPoints st))
           \<and> colors res = concat (map (\<lambda>pt. triple (colorOf h buf (rawPoints st) pt)) (rawPoints st))
           \<and> loadedPoints res = length (rawPoints st)
           \<and> center res = Some (centerOf (rawPoints st))"
proof -
  let ?pts = "rawPoints st"
  have b: "minLon st = Some (Min (pt_lon ` set ?pts))" "maxLon st = Some (Max (pt_lon ` set ?pts))"
    "minLat st = Some (Min (pt_lat ` set ?pts))" "maxLat st = Some (Max (pt_lat ` set ?pts))"
    "minZ st = Some (Min (pt_z ` set ?pts))" "maxZ st = Some (Max (pt_z ` set ?pts))"
    using assms by (simp_all add: bounds_ok_def)
  let ?lay = "rgbLayout (pointDataRecordFormat h)"
  have pos: "pointPosition ((Min (pt_lon ` set ?pts) + Max (pt_lon ` set ?pts)) / 2)
               ((Min (pt_lat ` set ?pts) + Max (pt_lat ` set ?pts)) / 2)
               ((Min (pt_z ` set ?pts) + Max (pt_z ` set ?pts)) / 2)
               (111320 * cos ((Min (pt_lat ` set ?pts) + Max (pt_lat ` set ?pts)) / 2 * (pi / 180)))
             = projected ?pts"
    by (rule ext) (simp add: pointPosition_def projected_def centerOf_def mid_def)
  have col: "\<And>pt. projr (pointColor buf (fst ?lay) (snd ?lay) (Min (pt_z ` set ?pts))
                  (if Max (pt_z ` set ?pts) - Min (pt_z ` set ?pts) = 0 then 1
                   else Max (pt_z ` set ?pts) - Min (pt_z ` set ?pts)) pt)
             = colorOf h buf ?pts pt"
    by (simp only: colorOf_def zRangeOf_def)
  have fa: "fillArrays
              (pointPosition ((Min (pt_lon ` set ?pts) + Max (pt_lon ` set ?pts)) / 2)
                 ((Min (pt_lat ` set ?pts) + Max (pt_lat ` set ?pts)) / 2)
                 ((Min (pt_z ` set ?pts) + Max (pt_z ` set ?pts)) / 2)
                 (111320 * cos ((Min (pt_lat ` set ?pts) + Max (pt_lat ` set ?pts)) / 2 * (pi / 180))))
              (pointColor buf (fst ?lay) (snd ?lay) (Min (pt_z ` set ?pts))
                 (if Max (pt_z ` set ?pts) - Min (pt_z ` set ?pts) = 0 then 1
                  else Max (pt_z ` set ?pts) - Min (pt_z ` set ?pts)))
              ?pts
            = Inr (concat (map (projected ?pts) ?pts),
                   concat (map (\<lambda>pt. triple (colorOf h buf ?pts pt)) ?pts))"
    by (simp only: fillArrays_closed [OF ballI, OF pointColor_total] pos col)
  show ?thesis
    apply (simp only: projectAndColor_def b prod.case option.case Let_def fa)
    apply (simp add: bind_def centerOf_def mid_def)
    done
qed

lemma length_concat_triples:
  "(\<And>x. length (f x) = 3) \<Longrightarrow> length (concat (map f xs)) = 3 * length xs"
  by (induction xs) simp_all


lemma parsePoints_structure:
  assumes "0 < maxPts"
  shows "\<exists>st. readPhase h buf maxPts = Some (Inr st)
           \<and> rawPoints st = map (pointAt h buf) (takeWhile (fitsBuffer h buf)
                 (indicesFrom 0 (stride (numberOfPoints h) maxPts) (numberOfPoints h)))
           \<and> bounds_ok st
           \<and> parsePoints h buf maxPts = Some (projectAndColor h buf st)"
  by (simp add: readPhase_def parsePoints_def bind_def
      readPoints_closed [OF stride_pos [OF assms]] rawPoints_foldl bounds_ok_foldl
      bounds_ok_initial)
     (simp add: initial_read_state_def)

lemma projectAndColor_total:
  assumes "bounds_ok st"
  shows "\<exists>res. projectAndColor h buf st = Inr res
           \<and> loadedPoints res = length (rawPoints st)
           \<and> length (positions res) = 3 * length (rawPoints st)
           \<and> length (colors res) = 3 * length (rawPoints st)"
proof (cases "rawPoints st = []")
  case True
  with assms show ?thesis by (simp add: projectAndColor_empty)
next
  case False
  from projectAndColor_nonempty [OF assms False, of h buf]
  obtain res where r: "projectAndColor h buf st = Inr res"
    "positions res = concat (map (projected (rawPoints st)) (rawPoints st))"
    "colors res = concat (map (\<lambda>pt. triple (colorOf h buf (rawPoints st) pt)) (rawPoints st))"
    "loadedPoints res = length (rawPoints st)"
    by blast
  have "length (positions res) = 3 * length (rawPoints st)"
    unfolding r(2) by (rule length_concat_triples) (simp add: projected_def split: prod.splits)
  moreover have "length (colors res) = 3 * length (rawPoints st)"
    unfolding r(3) by (rule length_concat_triples) (simp add: triple_def split: prod.splits)
  ultimately show ?thesis using r by simp
qed

lemma indicesFrom_zero:
  "0 < step \<Longrightarrow> indicesFrom 0 step n = map (\<lambda>k. k * step) [0..<nat \<lceil>real n / real step\<rceil>]"
  by (simp add: indicesFrom_def ceil_div_nat)

lemma index_below:
  assumes "0 < step" "k < (n + step - 1) div step"
  shows "k * step < (n::nat)"
proof -
  have "Suc k * step \<le> ((n + step - 1) div step) * step"
    using assms(2) by (simp add: Suc_leI mult_le_mono1 del: mult_Suc)
  also have "\<dots> \<le> n + step - 1" by simp
  finally show ?thesis using assms(1) by simp
qed

lemma takeWhile_all_fit:
  assumes "0 < step" "\<forall>i < n. fitsBuffer h buf i"
  shows "takeWhile (fitsBuffer h buf) (indicesFrom 0 step n) = indicesFrom 0 step n"
  using assms by (auto simp add: takeWhile_eq_all_conv indicesFrom_def index_below)

lemma nth_concat_triples:
  assumes "\<And>x. length (f x) = 3" "k < length xs" "j < 3"
  shows "concat (map f xs) ! (3 * k + j) = f (xs ! k) ! j"
  using assms(2)
proof (induction xs arbitrary: k)
  case Nil
  then show ?case by simp
next
  case (Cons x xs)
  show ?case
  proof (cases k)
    case 0
    then show ?thesis using assms(1,3) by (simp add: nth_append)
  next
    case (Suc m)
    hence "3 * k + j = 3 + (3 * m + j)" by simp
    then show ?thesis using Cons Suc assms(1) by (simp add: nth_append)
  qed
qed

lemma readPhase_closed:
  "0 < maxPts \<Longrightarrow> readPhase h buf maxPts =
     Some (Inr (foldl (\<lambda>s j. pushPoint (pointAt h buf j) s) initial_read_state
                  (takeWhile (fitsBuffer h buf)
                     (indicesFrom 0 (stride (numberOfPoints h) maxPts) (numberOfPoints h)))))"
  by (simp add: readPhase_def readPoints_closed stride_pos)

lemmas read_eval =
  las_1_2_def stride_def indicesFrom_def upt_rec fitsBuffer_def recordOffset_def pointAt_def
  makePoint_def int32_at_def uint32_at_def pushPoint_def initial_read_state_def lower_def
  raise_def

lemmas color_eval =
  parsePoints_def bind_def projectAndColor_def rgbLayout_def
  pointColor_def getUint16_def channelColor_def pointPosition_def Let_def elevationColor_def




lemma five_records_read:
  "\<exists>st. readPhase (las_1_2 0 20 5) five_records 2 = Some (Inr st)
     \<and> map pt_offset (rawPoints st) = [227, 287]"
  "\<exists>st. readPhase (las_1_2 0 20 5) five_records 2000000 = Some (Inr st)
     \<and> map pt_offset (rawPoints st) = [227, 247, 267, 287, 307]"
  by (simp_all add: readPhase_closed las_1_2_def stride_exact ceil_div_nat indicesFrom_def upt_rec
      fitsBuffer_def recordOffset_def pointAt_def makePoint_def pushPoint_def
      initial_read_state_def five_records_def)

section \<open>Subsampling and partial files\<close>

text \<open>
  Claim C4 (subsampling stride), for counts that doubles hold exactly. For a positive
  point budget \<open>maxPts\<close>, a point count \<open>N = numberOfPoints h\<close> and a buffer length
  below \<open>2 ^ 53\<close>, and a buffer that holds the twelve coordinate bytes of each of the
  \<open>N\<close> records, the parse succeeds; when \<open>N > maxPts\<close> the stride is
  \<open>step = ceil (N / maxPts)\<close> and the points kept are those of the records
  \<open>0, step, 2 * step, \<dots>\<close>, exactly \<open>ceil (N / step)\<close> of them; when \<open>N \<le> maxPts\<close>
  the stride is 1 and every record is kept.
\<close>

theorem subsampling_stride:
  assumes "0 < maxPts" and "numberOfPoints h < 2 ^ 53" and "length buf < 2 ^ 53"
    and "\<forall>i < numberOfPoints h. fitsBuffer h buf i"
  shows "\<exists>st res. readPhase h buf maxPts = Some (Inr st)
           \<and> parsePoints h buf maxPts = Some (Inr res)
           \<and> (if numberOfPoints h > maxPts
               then stride (numberOfPoints h) maxPts
                      = nat \<lceil>real (numberOfPoints h) / real maxPts\<rceil>
                    \<and> rawPoints st =
                      map (\<lambda>k. pointAt h buf (k * nat \<lceil>real (numberOfPoints h) / real maxPts\<rceil>))
                        [0..<nat \<lceil>real (numberOfPoints h)
                                  / real (nat \<lceil>real (numberOfPoints h) / real maxPts\<rceil>)\<rceil>]
                    \<and> loadedPoints res =
                        nat \<lceil>real (numberOfPoints h)
                             / real (nat \<lceil>real (numberOfPoints h) / real maxPts\<rceil>)\<rceil>
               else stride (numberOfPoints h) maxPts = 1
                    \<and> rawPoints st = map (pointAt h buf) [0..<numberOfPoints h]
                    \<and> loadedPoints res = numberOfPoints h)"
proof -
  let ?n = "numberOfPoints h"
  let ?step = "stride ?n maxPts"
  have pos: "0 < ?step" by (rule stride_pos [OF assms(1)])
  from parsePoints_structure [OF assms(1), of h buf] obtain st where
    st: "readPhase h buf maxPts = Some (Inr st)"
      "rawPoints st = map (pointAt h buf) (takeWhile (fitsBuffer h buf) (indicesFrom 0 ?step ?n))"
      "bounds_ok st" "parsePoints h buf maxPts = Some (projectAndColor h buf st)"
    by blast
  from projectAndColor_total [OF st(3), of h buf] obtain res where
    res: "projectAndColor h buf st = Inr res" "loadedPoints res = length (rawPoints st)"
    by blast
  have raw: "rawPoints st = map (\<lambda>k. pointAt h buf (k * ?step)) [0..<nat \<lceil>real ?n / real ?step\<rceil>]"
    unfolding st(2) takeWhile_all_fit [OF pos assms(4)]
    by (simp add: indicesFrom_zero [OF pos] comp_def)
  show ?thesis
  proof (cases "?n > maxPts")
    case True
    hence "?step = nat \<lceil>real ?n / real maxPts\<rceil>"
      by (simp add: stride_exact [OF assms(1,2)])
    with raw res st True show ?thesis by auto
  next
    case False
    hence "?step = 1" by (simp add: stride_def)
    with raw res st False show ?thesis by (auto simp add: map_idI)
  qed
qed

theorem subsampling_stride_witness:
  "(\<exists>st res. readPhase (las_1_2 0 20 5) five_records 2 = Some (Inr st)
      \<and> parsePoints (las_1_2 0 20 5) five_records 2 = Some (Inr res)
      \<and> stride 5 2 = 3
      \<and> map pt_offset (rawPoints st) = [227, 287] \<and> loadedPoints res = 2)
   \<and> (\<exists>st res. readPhase (las_1_2 0 20 5) five_records 2000000 = Some (Inr st)
      \<and> parsePoints (las_1_2 0 20 5) five_records 2000000 = Some (Inr res)
      \<and> stride 5 2000000 = 1
      \<and> map pt_offset (rawPoints st) = [227, 247, 267, 287, 307] \<and> loadedPoints res = 5)"
proof -
  have fit: "\<forall>i < numberOfPoints (las_1_2 0 20 5). fitsBuffer (las_1_2 0 20 5) five_records i"
    by (simp add: las_1_2_def fitsBuffer_def recordOffset_def five_records_def)
  have small: "numberOfPoints (las_1_2 0 20 5) < 2 ^ 53" "length five_records < 2 ^ 53"
    by (simp_all add: las_1_2_def five_records_def)
  have n: "numberOfPoints (las_1_2 0 20 5) = 5" by (simp add: las_1_2_def)
  have c: "nat \<lceil>real 5 / real 2\<rceil> = 3" "nat \<lceil>real 5 / real 3\<rceil> = 2"
    by (simp_all add: ceil_div_nat)
  have "0 < (2::nat)" "0 < (2000000::nat)" by simp_all
  from subsampling_stride [OF this(1) small fit] subsampling_stride [OF this(2) small fit]
    five_records_read
  show ?thesis
    unfolding n by (auto simp add: c)
qed

text \<open>
  Without the bound on the count the stride is not the exact ceiling: for a count of
  2199023255554000128 and the default budget the quotient, 1099511627777.000064, is
  rounded to the double 1099511627777, which is the stride, where the ceiling of the
  exact quotient is 1099511627778.
\<close>

theorem subsampling_stride_rounding_counterexample:
  "stride (numberOfPoints (las_1_2 0 0 2199023255554000128)) (maxPoints (LASParser [] None))
     = 1099511627777
   \<and> nat \<lceil>real (numberOfPoints (las_1_2 0 0 2199023255554000128))
           / real (maxPoints (LASParser [] None))\<rceil> = 1099511627778"
  by (simp add: las_1_2_def LASParser_def stride_def ceil_quotient_def
      bit_length_1099511627777 round_half_even_def Let_def ceil_div_nat)



section \<open>Colours\<close>

text \<open>
  Claim C9 (colour block past the end of the buffer). For a positive point budget the
  parse succeeds, so no read left the buffer (an out-of-range read is a
  \<open>RangeError\<close> in the model, and would be the result), and every kept point of a
  colour-capable format whose colour block would end past the buffer gets the
  elevation-gradient colour of its normalized elevation.
\<close>

theorem color_block_outside_buffer:
  assumes "0 < maxPts"
  shows "\<exists>st res. readPhase h buf maxPts = Some (Inr st)
           \<and> parsePoints h buf maxPts = Some (Inr res)
           \<and> length (colors res) = 3 * length (rawPoints st)
           \<and> (\<forall>k < length (rawPoints st).
                 fst (rgbLayout (pointDataRecordFormat h))
                 \<and> pt_offset (rawPoints st ! k) + snd (rgbLayout (pointDataRecordFormat h)) + 6
                     > length buf
                 \<longrightarrow> (colors res ! (3 * k), colors res ! (3 * k + 1), colors res ! (3 * k + 2))
                     = elevationColor (normalizedElevation (rawPoints st) (rawPoints st ! k)))"
proof -
  from parsePoints_structure [OF assms, of h buf] obtain st where
    st: "readPhase h buf maxPts = Some (Inr st)" "bounds_ok st"
      "parsePoints h buf maxPts = Some (projectAndColor h buf st)"
    by blast
  from projectAndColor_total [OF st(2), of h buf] obtain res where
    res: "projectAndColor h buf st = Inr res" "length (colors res) = 3 * length (rawPoints st)"
    by blast
  have "(colors res ! (3 * k), colors res ! (3 * k + 1), colors res ! (3 * k + 2))
          = elevationColor (normalizedElevation (rawPoints st) (rawPoints st ! k))"
    if k: "k < length (rawPoints st)"
      and out: "pt_offset (rawPoints st ! k) + snd (rgbLayout (pointDataRecordFormat h)) + 6
                  > length buf"
    for k
  proof -
    let ?pts = "rawPoints st"
    have ne: "?pts \<noteq> []" using k by auto
    from projectAndColor_nonempty [OF st(2) ne, of h buf] res(1)
    have c: "colors res = concat (map (\<lambda>pt. triple (colorOf h buf ?pts pt)) ?pts)" by auto
    have len: "\<And>pt. length (triple (colorOf h buf ?pts pt)) = 3"
      by (simp add: triple_def split: prod.splits)
    have col: "colorOf h buf ?pts (?pts ! k) = elevationColor (normalizedElevation ?pts (?pts ! k))"
      using out by (simp add: colorOf_def pointColor_outside normalizedElevation_def)
    have "colors res ! (3 * k + j) = triple (colorOf h buf ?pts (?pts ! k)) ! j" if "j < 3" for j
      unfolding c using nth_concat_triples [of "\<lambda>pt. triple (colorOf h buf ?pts pt)" k ?pts j]
        len k that by simp
    from this [of 0] this [of 1] this [of 2] show ?thesis
      by (simp add: col triple_def split: prod.splits)
  qed
  with st res show ?thesis by auto
qed

theorem color_block_outside_buffer_witness:
  "\<exists>st res. readPhase (las_1_2 2 26 2) cut_color_file 2000000 = Some (Inr st)
     \<and> parsePoints (las_1_2 2 26 2) cut_color_file 2000000 = Some (Inr res)
     \<and> map pt_offset (rawPoints st) = [227, 253] \<and> length cut_color_file = 273
     \<and> (colors res ! 3, colors res ! 4, colors res ! 5) = (1, 0, 0)"
proof -
  have "0 < (2000000::nat)" by simp
  from color_block_outside_buffer [OF this, of "las_1_2 2 26 2" cut_color_file]
  obtain st res where a:
    "readPhase (las_1_2 2 26 2) cut_color_file 2000000 = Some (Inr st)"
    "parsePoints (las_1_2 2 26 2) cut_color_file 2000000 = Some (Inr res)"
    "\<forall>k < length (rawPoints st).
        fst (rgbLayout (pointDataRecordFormat (las_1_2 2 26 2)))
        \<and> pt_offset (rawPoints st ! k) + snd (rgbLayout (pointDataRecordFormat (las_1_2 2 26 2))) + 6
            > length cut_color_file
        \<longrightarrow> (colors res ! (3 * k), colors res ! (3 * k + 1), colors res ! (3 * k + 2))
            = elevationColor (normalizedElevation (rawPoints st) (rawPoints st ! k))"
    by blast
  have raw: "rawPoints st = [\<lparr>pt_lon = 0, pt_lat = 0, pt_z = 0, pt_offset = 227\<rparr>,
                             \<lparr>pt_lon = 0, pt_lat = 0, pt_z = 10, pt_offset = 253\<rparr>]"
    using a(1) by (auto simp add: readPhase_closed read_eval cut_color_file_def)
  have "(colors res ! (3 * 1), colors res ! (3 * 1 + 1), colors res ! (3 * 1 + 2)) = (1, 0, 0)"
    using a(3) [rule_format, of 1]
    by (simp add: raw las_1_2_def rgbLayout_def cut_color_file_def normalizedElevation_def
        zRangeOf_def elevationColor_def)
  thus ?thesis using a raw by (simp add: cut_color_file_def)
qed

lemma elevationColor_not_grey: "elevationColor t \<noteq> (1 / 2, 1 / 2, 1 / 2)"
  by (simp add: elevationColor_def Let_def)

text \<open>
  Claim C2 (all-black colour fallback) does not hold of the code. The file below has one
  record of format 2 whose colour block lies inside the buffer and whose three channels
  are zero. The elevation-gradient colour of the point is \<open>(0, 0, 1)\<close>; the decoder
  gives it \<open>(1/2, 1/2, 1/2)\<close>: \<open>r\<close>, \<open>g\<close>, \<open>b\<close> start at 0.5 and neither
  branch assigns them when all channels are zero, so the test \<open>r === 0 && g === 0 && b === 0\<close>
  that leads to the gradient is never true.
\<close>

theorem black_color_block_is_grey:
  "parsePoints (las_1_2 2 26 1) black_point_file 2000000 =
     Some (Inr \<lparr>positions = [0, 0, 0], colors = [1 / 2, 1 / 2, 1 / 2], loadedPoints = 1,
               center = Some (0, 0, 0), extentMeters = Some (0, 0, 0)\<rparr>)
   \<and> rgbLayout 2 = (True, 20) \<and> 227 + 20 + 6 \<le> length black_point_file
   \<and> uint16_at black_point_file (227 + 20) = 0
   \<and> uint16_at black_point_file (227 + 20 + 2) = 0
   \<and> uint16_at black_point_file (227 + 20 + 4) = 0
   \<and> elevationColor (normalizedElevation [pointAt (las_1_2 2 26 1) black_point_file 0]
                        (pointAt (las_1_2 2 26 1) black_point_file 0)) = (0, 0, 1)"
  by (simp add: readPhase_closed read_eval color_eval black_point_file_def uint16_at_def
      normalizedElevation_def zRangeOf_def)

section \<open>Projection\<close>

lemma image_Min_Max_affine:
  fixes S :: "real set"
  assumes "finite S" "S \<noteq> {}"
  shows "Min ((\<lambda>x. (x - c) * k) ` S) + Max ((\<lambda>x. (x - c) * k) ` S)
           = (Min S - c) * k + (Max S - c) * k"
proof -
  let ?f = "\<lambda>x. (x - c) * k"
  have fin: "finite (?f ` S)" using assms by simp
  have lo: "Min S \<in> S" and hi: "Max S \<in> S" using assms by simp_all
  have bnd: "Min S \<le> s \<and> s \<le> Max S" if "s \<in> S" for s using assms that by simp
  show ?thesis
  proof (cases "0 \<le> k")
    case True
    have "Min (?f ` S) = ?f (Min S)"
    proof (rule Min_eqI [OF fin])
      fix y assume "y \<in> ?f ` S"
      then obtain s where "s \<in> S" "y = ?f s" by auto
      thus "?f (Min S) \<le> y" using bnd True by (simp add: mult_right_mono)
    qed (use lo in blast)
    moreover have "Max (?f ` S) = ?f (Max S)"
    proof (rule Max_eqI [OF fin])
      fix y assume "y \<in> ?f ` S"
      then obtain s where "s \<in> S" "y = ?f s" by auto
      thus "y \<le> ?f (Max S)" using bnd True by (simp add: mult_right_mono)
    qed (use hi in blast)
    ultimately show ?thesis by simp
  next
    case False
    hence neg: "k \<le> 0" by simp
    have "Min (?f ` S) = ?f (Max S)"
    proof (rule Min_eqI [OF fin])
      fix y assume "y \<in> ?f ` S"
      then obtain s where "s \<in> S" "y = ?f s" by auto
      thus "?f (Max S) \<le> y" using bnd neg by (simp add: mult_right_mono_neg)
    qed (use hi in blast)
    moreover have "Max (?f ` S) = ?f (Min S)"
    proof (rule Max_eqI [OF fin])
      fix y assume "y \<in> ?f ` S"
      then obtain s where "s \<in> S" "y = ?f s" by auto
      thus "y \<le> ?f (Min S)" using bnd neg by (simp add: mult_right_mono_neg)
    qed (use lo in blast)
    ultimately show ?thesis by simp
  qed
qed

lemma mid_affine:
  fixes S :: "real set"
  assumes "finite S" "S \<noteq> {}"
  shows "mid ((\<lambda>x. (x - mid S) * k) ` S) = 0"
proof -
  have "(Min S - mid S) * k + (Max S - mid S) * k = 0"
    by (simp add: mid_def algebra_simps)
  thus ?thesis
    unfolding mid_def [of "(\<lambda>x. (x - mid S) * k) ` S"]
    using image_Min_Max_affine [OF assms, of "mid S" k] by simp
qed

lemma axisValues_concat:
  assumes "\<And>x. length (f x) = 3" "j < 3"
  shows "axisValues j (concat (map f xs)) = map (\<lambda>x. f x ! j) xs"
proof (rule nth_equalityI)
  show "length (axisValues j (concat (map f xs))) = length (map (\<lambda>x. f x ! j) xs)"
    by (simp add: axisValues_def length_concat_triples [of f, OF assms(1)])
next
  fix i assume "i < length (axisValues j (concat (map f xs)))"
  hence i: "i < length xs"
    by (simp add: axisValues_def length_concat_triples [of f, OF assms(1)])
  thus "axisValues j (concat (map f xs)) ! i = map (\<lambda>x. f x ! j) xs ! i"
    by (simp add: axisValues_def length_concat_triples [of f, OF assms(1)]
        nth_concat_triples [of f, OF assms(1) i assms(2)])
qed

lemma boxCenter_projected:
  assumes "pts \<noteq> []"
  shows "boxCenter (concat (map (projected pts) pts)) = (0, 0, 0)"
proof -
  have len: "\<And>p. length (projected pts p) = 3"
    by (simp add: projected_def split: prod.splits)
  have fin: "finite (pt_lon ` set pts)" "pt_lon ` set pts \<noteq> {}"
    "finite (pt_lat ` set pts)" "pt_lat ` set pts \<noteq> {}"
    "finite (pt_z ` set pts)" "pt_z ` set pts \<noteq> {}"
    using assms by simp_all
  have x: "set (map (\<lambda>p. projected pts p ! 0) pts)
             = (\<lambda>x. (x - mid (pt_lon ` set pts)) * (111320 * cos (mid (pt_lat ` set pts) * (pi / 180))))
                 ` (pt_lon ` set pts)"
    by (simp add: projected_def centerOf_def image_image)
  have y: "set (map (\<lambda>p. projected pts p ! 1) pts)
             = (\<lambda>x. (x - mid (pt_lat ` set pts)) * 111320) ` (pt_lat ` set pts)"
    by (simp add: projected_def centerOf_def image_image)
  have z: "set (map (\<lambda>p. projected pts p ! 2) pts)
             = (\<lambda>x. (x - mid (pt_z ` set pts)) * 1) ` (pt_z ` set pts)"
    by (simp add: projected_def centerOf_def image_image)
  let ?ps = "concat (map (projected pts) pts)"
  have a0: "axisValues 0 ?ps = map (\<lambda>p. projected pts p ! 0) pts"
    by (rule axisValues_concat [OF len]) simp
  have a1: "axisValues 1 ?ps = map (\<lambda>p. projected pts p ! 1) pts"
    by (rule axisValues_concat [OF len]) simp
  have a2: "axisValues 2 ?ps = map (\<lambda>p. projected pts p ! 2) pts"
    by (rule axisValues_concat [OF len]) simp
  have m0: "mid (set (axisValues 0 ?ps)) = 0"
    unfolding a0 x by (rule mid_affine [OF fin(1,2)])
  have m1: "mid (set (axisValues 1 ?ps)) = 0"
    unfolding a1 y by (rule mid_affine [OF fin(3,4)])
  have m2: "mid (set (axisValues 2 ?ps)) = 0"
    unfolding a2 z by (rule mid_affine [OF fin(5,6)])
  show ?thesis
    by (simp only: boxCenter_def m0 m1 m2)
qed


lemma three_heights_parsed:
  "parsePoints (las_1_2 0 20 3) three_heights 2000000 =
     Some (Inr \<lparr>positions = [0, 0, - (3 / 2), 0, 0, - (3 / 2), 0, 0, 3 / 2],
               colors = [0, 0, 1, 0, 0, 1, 1, 0, 0], loadedPoints = 3,
               center = Some (0, 0, 3 / 2), extentMeters = Some (0, 0, 3)\<rparr>)"
  by (simp add: readPhase_closed read_eval color_eval three_heights_def)

text \<open>
  Claim C5 (projection), as the code does it. For a non-empty set of kept points, the
  centre that is subtracted is the centre of the bounding box of the geodetic coordinates,
  \<open>(min + max) / 2\<close> on each axis; each position is
  East \<open>= (lon - centerLon) * 111320 * cos (centerLat * pi / 180)\<close>,
  North \<open>= (lat - centerLat) * 111320\<close>, Up \<open>= z - centerZ\<close>; and the centre of the
  bounding box of the projected positions is \<open>(0, 0, 0)\<close>. Numbers are reals here.
\<close>

theorem projection_centers_bounding_box:
  assumes "0 < maxPts" and "parsePoints h buf maxPts = Some (Inr res)"
    and "0 < loadedPoints res"
  shows "\<exists>st centerLon centerLat centerZ.
           readPhase h buf maxPts = Some (Inr st)
           \<and> length (rawPoints st) = loadedPoints res
           \<and> centerLon = mid (pt_lon ` set (rawPoints st))
           \<and> centerLat = mid (pt_lat ` set (rawPoints st))
           \<and> centerZ = mid (pt_z ` set (rawPoints st))
           \<and> center res = Some (centerLon, centerLat, centerZ)
           \<and> (\<forall>k < loadedPoints res.
                 positions res ! (3 * k)
                   = (pt_lon (rawPoints st ! k) - centerLon) * (111320 * cos (centerLat * (pi / 180)))
                 \<and> positions res ! (3 * k + 1) = (pt_lat (rawPoints st ! k) - centerLat) * 111320
                 \<and> positions res ! (3 * k + 2) = pt_z (rawPoints st ! k) - centerZ)
           \<and> boxCenter (positions res) = (0, 0, 0)"
proof -
  from parsePoints_structure [OF assms(1), of h buf] obtain st where
    st: "readPhase h buf maxPts = Some (Inr st)" "bounds_ok st"
      "parsePoints h buf maxPts = Some (projectAndColor h buf st)"
    by blast
  let ?pts = "rawPoints st"
  have pr: "projectAndColor h buf st = Inr res" using st(3) assms(2) by simp
  have ne: "?pts \<noteq> []"
    using projectAndColor_empty [OF st(2), of h buf] pr assms(3) by (cases "?pts = []") auto
  from projectAndColor_nonempty [OF st(2) ne, of h buf] pr
  have r: "positions res = concat (map (projected ?pts) ?pts)"
    "loadedPoints res = length ?pts" "center res = Some (centerOf ?pts)"
    by auto
  have len: "\<And>p. length (projected ?pts p) = 3"
    by (simp add: projected_def split: prod.splits)
  have nth: "positions res ! (3 * k + j) = projected ?pts (?pts ! k) ! j"
    if "k < length ?pts" "j < 3" for k j
    unfolding r(1) by (rule nth_concat_triples [OF len that])
  have pos: "positions res ! (3 * k)
               = (pt_lon (?pts ! k) - mid (pt_lon ` set ?pts))
                   * (111320 * cos (mid (pt_lat ` set ?pts) * (pi / 180)))
             \<and> positions res ! (3 * k + 1) = (pt_lat (?pts ! k) - mid (pt_lat ` set ?pts)) * 111320
             \<and> positions res ! (3 * k + 2) = pt_z (?pts ! k) - mid (pt_z ` set ?pts)"
    if "k < length ?pts" for k
    using nth [OF that, of 0] nth [OF that, of 1] nth [OF that, of 2]
    by (simp add: projected_def centerOf_def)
  have box: "boxCenter (positions res) = (0, 0, 0)"
    unfolding r(1) by (rule boxCenter_projected [OF ne])
  show ?thesis
    apply (rule exI [of _ st])
    apply (rule exI [of _ "mid (pt_lon ` set ?pts)"])
    apply (rule exI [of _ "mid (pt_lat ` set ?pts)"])
    apply (rule exI [of _ "mid (pt_z ` set ?pts)"])
    using st(1) r(2,3) pos box apply (simp only: centerOf_def)
    apply blast
    done
qed

theorem projection_centers_bounding_box_witness:
  "parsePoints (las_1_2 0 20 3) three_heights 2000000 =
     Some (Inr \<lparr>positions = [0, 0, - (3 / 2), 0, 0, - (3 / 2), 0, 0, 3 / 2],
               colors = [0, 0, 1, 0, 0, 1, 1, 0, 0], loadedPoints = 3,
               center = Some (0, 0, 3 / 2), extentMeters = Some (0, 0, 3)\<rparr>)
   \<and> boxCenter [0, 0, - (3 / 2), 0, 0, - (3 / 2), 0, 0, 3 / 2] = (0, 0, 0)"
  using projection_centers_bounding_box [OF _ three_heights_parsed]
  by (auto simp add: three_heights_parsed)

text \<open>
  The claim as stated speaks of the centroid. The mean of the projected points is not
  the origin in general: three points at elevations 0, 0 and 3 are projected to heights
  \<open>-3/2\<close>, \<open>-3/2\<close> and \<open>3/2\<close>, whose mean is \<open>-1/2\<close>.
\<close>

theorem projection_centroid_counterexample:
  "map_option (map_sum id positions) (parsePoints (las_1_2 0 20 3) three_heights 2000000)
     = Some (Inr [0, 0, - (3 / 2), 0, 0, - (3 / 2), 0, 0, 3 / 2])
   \<and> centroid [0, 0, - (3 / 2), 0, 0, - (3 / 2), 0, 0, 3 / 2] = (0, 0, - (1 / 2))"
  by (simp add: three_heights_parsed centroid_def axisValues_def mean_def upt_rec)

section \<open>The decoder is rejected when it is parsed\<close>





section \<open>Slicing\<close>

lemma writeMin_gap: "range_min (writeMin sl v) < range_max (writeMin sl v)"
  by (simp add: writeMin_def min_def)

lemma writeMax_gap: "range_min (writeMax sl v) < range_max (writeMax sl v)"
  by (simp add: writeMax_def max_def)

lemma full_range_gap: "range_min full_range < range_max full_range"
  by (simp add: full_range_def)

lemma update_keeps_ranges_ok: "ranges_ok state \<Longrightarrow> ranges_ok (update state ev)"
proof (cases ev)
  case (SliderMin a v)
  assume "ranges_ok state"
  then show ?thesis
    using SliderMin by (cases a) (simp_all add: update_def ranges_ok_def writeMin_gap)
next
  case (SliderMax a v)
  assume "ranges_ok state"
  then show ?thesis
    using SliderMax by (cases a) (simp_all add: update_def ranges_ok_def writeMax_gap)
qed (simp_all add: update_def ranges_ok_def full_range_gap initialState_def)

lemma ranges_ok_initial: "ranges_ok initialState"
  by (simp add: ranges_ok_def initialState_def full_range_gap)

lemma ranges_ok_foldl: "ranges_ok state \<Longrightarrow> ranges_ok (foldl update state evs)"
  by (induction evs arbitrary: state) (simp_all add: update_keeps_ranges_ok)

text \<open>
  The reducer on its own: it stores the payload of \<open>SET_X\<close>, \<open>SET_Y\<close> and
  \<open>SET_Z\<close> as it is, and every other action keeps \<open>min < max\<close>.
\<close>

lemma reducer_stores_payload:
  "slice_x (slicerReducer state (SET_X payload)) = payload"
  "slice_y (slicerReducer state (SET_Y payload)) = payload"
  "slice_z (slicerReducer state (SET_Z payload)) = payload"
  by simp_all

lemma reducer_keeps_ranges_ok:
  assumes "ranges_ok state"
    and "\<And>payload. a \<noteq> SET_X payload \<and> a \<noteq> SET_Y payload \<and> a \<noteq> SET_Z payload"
  shows "ranges_ok (slicerReducer state a)"
  using assms
  by (cases a) (auto simp add: ranges_ok_def full_range_gap initialState_def)

text \<open>
  Claim C6 (slice-range invariant). The reducer stores the range it is given; the
  clamping is done by the slider handlers, through which every write to a bound passes.
  A write of the lower bound gives \<open>min (value, max - 1)\<close> and a write of the upper bound
  gives \<open>max (value, min + 1)\<close>, so the written range has \<open>min < max\<close> whatever the
  value, and a value at or beyond the other bound leaves a gap of exactly one. Every
  update that the application performs keeps \<open>min < max\<close> on the three axes, and so
  does every state reached from the initial one.
\<close>

theorem slice_range_invariant:
  "ranges_ok (foldl update initialState evs)
   \<and> (ranges_ok state \<longrightarrow> ranges_ok (update state ev))
   \<and> range_min (writeMin sl v) < range_max (writeMin sl v)
   \<and> range_min (writeMax sl v) < range_max (writeMax sl v)
   \<and> (real_of_int v \<ge> range_max sl - 1
        \<longrightarrow> range_min (writeMin sl v) = range_max sl - 1 \<and> range_max (writeMin sl v) = range_max sl)
   \<and> (real_of_int v \<le> range_min sl + 1
        \<longrightarrow> range_max (writeMax sl v) = range_min sl + 1 \<and> range_min (writeMax sl v) = range_min sl)"
  by (simp add: ranges_ok_foldl ranges_ok_initial update_keeps_ranges_ok writeMin_gap
      writeMax_gap)
     (simp add: writeMin_def writeMax_def)

theorem slice_range_invariant_witness:
  "ranges_ok initialState
   \<and> real_of_int 120 \<ge> range_max full_range - 1
   \<and> real_of_int (- 5) \<le> range_min full_range + 1
   \<and> ranges_ok (update initialState (SliderMin AxisX 120))
   \<and> slice_x (update initialState (SliderMin AxisX 120)) = \<lparr>range_min = 99, range_max = 100\<rparr>
   \<and> slice_y (update initialState (SliderMax AxisY (- 5))) = \<lparr>range_min = 0, range_max = 1\<rparr>
   \<and> ranges_ok (foldl update initialState [Toggle, SliderMin AxisX 120, SliderMax AxisY (- 5)])"
  using slice_range_invariant [of "[Toggle, SliderMin AxisX 120, SliderMax AxisY (- 5)]"
      initialState "SliderMin AxisX 120" full_range 120]
    slice_range_invariant [of "[]" initialState "SliderMax AxisY (- 5)" full_range "- 5"]
  by (simp add: update_def initialState_def full_range_def writeMin_def writeMax_def
      ranges_ok_def)

lemma filterPoints_lengths:
  "length (fst (filterPoints state solid rot ps cs idx))
     = length (snd (filterPoints state solid rot ps cs idx))"
  by (induction idx) (simp_all add: Let_def split: option.splits prod.splits)

lemma length_solidColors: "length (solidColors len c) = len"
proof -
  have "len \<le> 3 * ((len + 2) div 3)" by presburger
  thus ?thesis
    by (simp add: solidColors_def length_concat sum_list_replicate split: prod.splits)
qed

lemma applySlice_filter_parallel:
  assumes "points ref = Some geom" and "originals ref = Some (originalPositions, originalColors)"
    and "enabled state"
  shows "\<exists>geom'. points (applySlice state solidColor rotationZ ref) = Some geom'
           \<and> pointCount (position geom') = pointCount (color geom')"
  using assms
  by (simp add: applySlice_def Let_def pointCount_def filterPoints_lengths)

lemma applySlice_restore_parallel:
  assumes "points ref = Some geom" and "originals ref = Some (originalPositions, originalColors)"
    and "\<not> enabled state" and "length (position geom) \<noteq> length originalPositions"
    and "length originalPositions = length originalColors"
  shows "\<exists>geom'. points (applySlice state solidColor rotationZ ref) = Some geom'
           \<and> pointCount (position geom') = pointCount (color geom')"
  using assms
  by (simp add: applySlice_def pointCount_def length_solidColors split: option.splits)

lemma applySlice_nothing_to_restore:
  assumes "points ref = Some geom" and "originals ref = Some (originalPositions, originalColors)"
    and "\<not> enabled state" and "length (position geom) = length originalPositions"
  shows "applySlice state solidColor rotationZ ref = ref"
  using assms by (simp add: applySlice_def)

lemma replicate_three: "replicate 3 x = [x, x, x]"
  by (simp only: numeral_3_eq_3 replicate.simps)

lemma three_heights_sliced:
  "applySlice (update initialState Toggle) None 0 three_heights_ref = sliced_ref"
  by (simp add: applySlice_def three_heights_ref_def sliced_ref_def update_def initialState_def
      full_range_def upt_rec elementAt_def inSlice_def worldBound_def Let_def)

lemma sliced_ref_recolored:
  "colorEffect False None sliced_ref
     = three_heights_ref\<lparr>points := Some \<lparr>position = [Some 0, Some 0, Some (3 / 2)],
                                            color = map Some [0, 0, 1, 0, 0, 1, 1, 0, 0]\<rparr>\<rparr>"
  by (simp add: colorEffect_def sliced_ref_def three_heights_ref_def)

lemma recolored_restored:
  "applySlice initialState None 0 (colorEffect False None sliced_ref) = three_heights_ref"
  by (simp add: sliced_ref_recolored applySlice_def three_heights_ref_def initialState_def)

text \<open>
  Claim C10 (parallel buffers). For a positive point budget the parser returns position
  and colour arrays of \<open>3 * loadedPoints\<close> entries each. A recompute of the slicer that
  produces buffers leaves position and colour attributes with equal point counts: when
  the filter is applied, whatever the geometry and the stored originals were; and at a
  full restore (slicer off, position count different from the original count),
  provided only that the stored original arrays are parallel. Nothing is assumed of the
  colour attribute before the recompute, which the viewer's colour effect may have
  rewritten since the last one. The originals the viewer stores are copies of the
  parser's two arrays, so with them every recompute that produces buffers produces
  parallel ones. With the slicer off and the position count equal to the original
  count, the recompute produces no buffer and leaves the geometry as it is.
\<close>

theorem point_buffers_parallel:
  "(0 < maxPts \<longrightarrow>
      (\<exists>res. parsePoints h buf maxPts = Some (Inr res)
         \<and> length (positions res) = 3 * loadedPoints res
         \<and> length (colors res) = 3 * loadedPoints res
         \<and> (\<forall>g st c r. enabled st \<or> length (position g) \<noteq> length (positions res) \<longrightarrow>
               (\<exists>geom'. points (applySlice st c r
                                    \<lparr>points = Some g, originals = Some (positions res, colors res)\<rparr>)
                            = Some geom'
                  \<and> pointCount (position geom') = pointCount (color geom')))))
   \<and> (points ref = Some geom \<and> originals ref = Some (originalPositions, originalColors)
       \<and> (enabled state
           \<or> (length (position geom) \<noteq> length originalPositions
               \<and> length originalPositions = length originalColors))
       \<longrightarrow> (\<exists>geom'. points (applySlice state solidColor rotationZ ref) = Some geom'
              \<and> pointCount (position geom') = pointCount (color geom')))
   \<and> (points ref = Some geom \<and> originals ref = Some (originalPositions, originalColors)
       \<and> \<not> enabled state \<and> length (position geom) = length originalPositions
       \<longrightarrow> applySlice state solidColor rotationZ ref = ref)"
proof (intro conjI impI)
  assume "0 < maxPts"
  from parsePoints_structure [OF this, of h buf] obtain st where
    st: "bounds_ok st" "parsePoints h buf maxPts = Some (projectAndColor h buf st)"
    by blast
  from projectAndColor_total [OF st(1), of h buf] st(2)
  obtain res where res: "parsePoints h buf maxPts = Some (Inr res)"
    "length (positions res) = 3 * loadedPoints res" "length (colors res) = 3 * loadedPoints res"
    by auto
  have "\<exists>geom'. points (applySlice st c r
                        \<lparr>points = Some g, originals = Some (positions res, colors res)\<rparr>)
                     = Some geom'
                 \<and> pointCount (position geom') = pointCount (color geom')"
    if "enabled st \<or> length (position g) \<noteq> length (positions res)" for g st c r
  proof (cases "enabled st")
    case True
    thus ?thesis
      using applySlice_filter_parallel
        [of "\<lparr>points = Some g, originals = Some (positions res, colors res)\<rparr>" g
          "positions res" "colors res" st c r]
      by simp
  next
    case False
    with that res(2,3) show ?thesis
      using applySlice_restore_parallel
        [of "\<lparr>points = Some g, originals = Some (positions res, colors res)\<rparr>" g
          "positions res" "colors res" st c r]
      by simp
  qed
  with res
  show "\<exists>res. parsePoints h buf maxPts = Some (Inr res)
          \<and> length (positions res) = 3 * loadedPoints res
          \<and> length (colors res) = 3 * loadedPoints res
          \<and> (\<forall>g st c r. enabled st \<or> length (position g) \<noteq> length (positions res) \<longrightarrow>
               (\<exists>geom'. points (applySlice st c r
                                    \<lparr>points = Some g, originals = Some (positions res, colors res)\<rparr>)
                            = Some geom'
                  \<and> pointCount (position geom') = pointCount (color geom')))"
    by blast
next
  assume a: "points ref = Some geom \<and> originals ref = Some (originalPositions, originalColors)
       \<and> (enabled state
           \<or> (length (position geom) \<noteq> length originalPositions
               \<and> length originalPositions = length originalColors))"
  show "\<exists>geom'. points (applySlice state solidColor rotationZ ref) = Some geom'
              \<and> pointCount (position geom') = pointCount (color geom')"
  proof (cases "enabled state")
    case True
    with a show ?thesis using applySlice_filter_parallel by blast
  next
    case False
    with a show ?thesis using applySlice_restore_parallel by blast
  qed
next
  assume "points ref = Some geom \<and> originals ref = Some (originalPositions, originalColors)
       \<and> \<not> enabled state \<and> length (position geom) = length originalPositions"
  thus "applySlice state solidColor rotationZ ref = ref"
    using applySlice_nothing_to_restore by blast
qed

theorem point_buffers_parallel_witness:
  "parsePoints (las_1_2 0 20 3) three_heights 2000000
     = Some (Inr \<lparr>positions = [0, 0, - (3 / 2), 0, 0, - (3 / 2), 0, 0, 3 / 2],
                 colors = [0, 0, 1, 0, 0, 1, 1, 0, 0], loadedPoints = 3,
                 center = Some (0, 0, 3 / 2), extentMeters = Some (0, 0, 3)\<rparr>)
   \<and> applySlice (update initialState Toggle) None 0 three_heights_ref = sliced_ref
   \<and> pointCount [Some 0, Some 0, Some (3 / 2)] = pointCount [Some 1, Some 0, Some 0]
   \<and> points (colorEffect False None sliced_ref)
       = Some \<lparr>position = [Some 0, Some 0, Some (3 / 2)],
               color = map Some [0, 0, 1, 0, 0, 1, 1, 0, 0]\<rparr>
   \<and> applySlice initialState None 0 (colorEffect False None sliced_ref) = three_heights_ref
   \<and> pointCount (map Some [0, 0, - (3 / 2), 0, 0, - (3 / 2), 0, 0, 3 / 2])
       = pointCount (map Some [0, 0, 1, 0, 0, 1, 1, 0, (0::real)])
   \<and> applySlice initialState None 0 three_heights_ref = three_heights_ref"
proof -
  let ?ps = "[0, 0, - (3 / 2), 0, 0, - (3 / 2), 0, 0, 3 / (2::real)]"
  let ?cs = "[0, 0, 1, 0, 0, 1, 1, 0, (0::real)]"
  let ?g0 = "\<lparr>position = map Some ?ps, color = map Some ?cs\<rparr>"
  let ?g1 = "\<lparr>position = [Some 0, Some 0, Some (3 / 2)], color = [Some 1, Some 0, Some (0::real)]\<rparr>"
  let ?g2 = "\<lparr>position = [Some 0, Some 0, Some (3 / 2)], color = map Some ?cs\<rparr>"
  have en: "enabled (update initialState Toggle)" "\<not> enabled initialState"
    by (simp_all add: update_def initialState_def)
  have r0: "points three_heights_ref = Some ?g0" "originals three_heights_ref = Some (?ps, ?cs)"
    by (simp_all add: three_heights_ref_def)
  have r2: "points (colorEffect False None sliced_ref) = Some ?g2"
    "originals (colorEffect False None sliced_ref) = Some (?ps, ?cs)"
    by (simp_all add: sliced_ref_recolored three_heights_ref_def)
  have len: "length (position ?g2) \<noteq> length ?ps \<and> length ?ps = length ?cs"
    "length (position ?g0) = length ?ps"
    by simp_all
  note filtered = point_buffers_parallel [of 2000000 "las_1_2 0 20 3" three_heights
      three_heights_ref ?g0 ?ps ?cs "update initialState Toggle" None 0]
  note restored = point_buffers_parallel [of 2000000 "las_1_2 0 20 3" three_heights
      "colorEffect False None sliced_ref" ?g2 ?ps ?cs initialState None 0]
  note untouched = point_buffers_parallel [of 2000000 "las_1_2 0 20 3" three_heights
      three_heights_ref ?g0 ?ps ?cs initialState None 0]
  from filtered [THEN conjunct1]
  have p: "\<exists>res. parsePoints (las_1_2 0 20 3) three_heights 2000000 = Some (Inr res)
             \<and> length (positions res) = 3 * loadedPoints res
             \<and> length (colors res) = 3 * loadedPoints res"
    by fastforce
  from filtered [THEN conjunct2, THEN conjunct1] en r0
  have f: "\<exists>geom'. points (applySlice (update initialState Toggle) None 0 three_heights_ref)
                      = Some geom'
             \<and> pointCount (position geom') = pointCount (color geom')"
    by simp
  from restored [THEN conjunct2, THEN conjunct1] en r2 len
  have r: "\<exists>geom'. points (applySlice initialState None 0 (colorEffect False None sliced_ref))
                      = Some geom'
             \<and> pointCount (position geom') = pointCount (color geom')"
    by simp
  from untouched [THEN conjunct2, THEN conjunct2] en r0 len
  have u: "applySlice initialState None 0 three_heights_ref = three_heights_ref"
    by simp
  from p f r u r2 show ?thesis
    by (simp add: three_heights_sliced recolored_restored three_heights_parsed pointCount_def)
qed

end
